theory Spec2Isabelle
  imports Main "HOL-Library.Word" "HOL-Library.Extended_Nat"
begin

section \<open>Strings of the host language\<close>

text \<open>
  A JavaScript string is a sequence of 16-bit UTF-16 code units. String literals of the
  source are written with \<open>js\<close>, which maps each ASCII character to its code unit.
\<close>

type_synonym jsstring = "16 word list"

definition js :: "string \<Rightarrow> jsstring" where
  "js s = map (\<lambda>c. of_nat (of_char c)) s"

text \<open>
  A JavaScript number that holds a count or a length: a non-negative integral double,
  or \<open>Infinity\<close> (written \<open>\<infinity>\<close>).
\<close>

type_synonym number = enat

subsection \<open>Character classes\<close>

text \<open>
  \<open>WhiteSpace\<close> and \<open>LineTerminator\<close> of ECMAScript: the characters removed by
  \<open>String.prototype.trim\<close> and matched by the regular-expression class \<open>\s\<close>.
\<close>

definition isWhiteSpace :: "16 word \<Rightarrow> bool" where
  "isWhiteSpace c =
     (c = 0x9 \<or> c = 0xA \<or> c = 0xB \<or> c = 0xC \<or> c = 0xD \<or> c = 0x20 \<or> c = 0xA0 \<or>
      c = 0x1680 \<or> (0x2000 \<le> c \<and> c \<le> 0x200A) \<or> c = 0x2028 \<or> c = 0x2029 \<or>
      c = 0x202F \<or> c = 0x205F \<or> c = 0x3000 \<or> c = 0xFEFF)"

definition isDigit :: "16 word \<Rightarrow> bool" where
  "isDigit c = (0x30 \<le> c \<and> c \<le> 0x39)"

definition isLowerAZ :: "16 word \<Rightarrow> bool" where
  "isLowerAZ c = (0x61 \<le> c \<and> c \<le> 0x7A)"

definition isUpperAZ :: "16 word \<Rightarrow> bool" where
  "isUpperAZ c = (0x41 \<le> c \<and> c \<le> 0x5A)"

subsection \<open>Unicode functions of the host\<close>

text \<open>
  \<open>String.prototype.toLowerCase\<close>, \<open>String.prototype.toUpperCase\<close> and
  \<open>String.prototype.normalize("NFD")\<close> read the Unicode character database of the
  runtime, which is not part of the repository: they are parameters of the model.
\<close>

record unicode =
  toLowerCase :: "jsstring \<Rightarrow> jsstring"
  toUpperCase :: "jsstring \<Rightarrow> jsstring"
  normalizeNFD :: "jsstring \<Rightarrow> jsstring"

definition asciiLower :: "16 word \<Rightarrow> 16 word" where
  "asciiLower c = (if isUpperAZ c then c + 0x20 else c)"

definition asciiUpper :: "16 word \<Rightarrow> 16 word" where
  "asciiUpper c = (if isLowerAZ c then c - 0x20 else c)"

definition isAscii :: "jsstring \<Rightarrow> bool" where
  "isAscii s = (\<forall>c \<in> set s. c < 0x80)"

text \<open>
  What the three functions do on ASCII text, which is all that the examples of the
  specification need: case mapping of the 26 letters, and no decomposition.
\<close>

definition asciiFaithful :: "unicode \<Rightarrow> bool" where
  "asciiFaithful U =
     (\<forall>s. isAscii s \<longrightarrow>
        toLowerCase U s = map asciiLower s \<and>
        toUpperCase U s = map asciiUpper s \<and>
        normalizeNFD U s = s)"

text \<open>The three functions cut down to ASCII text, for closed examples.\<close>

definition asciiUnicode :: unicode where
  "asciiUnicode = \<lparr>toLowerCase = map asciiLower, toUpperCase = map asciiUpper, normalizeNFD = id\<rparr>"

subsection \<open>trim and includes\<close>

definition trim :: "jsstring \<Rightarrow> jsstring" where
  "trim s = rev (dropWhile isWhiteSpace (rev (dropWhile isWhiteSpace s)))"

fun startsWith :: "'a list \<Rightarrow> 'a list \<Rightarrow> bool" where
  "startsWith s [] = True"
| "startsWith [] (p # ps) = False"
| "startsWith (c # cs) (p # ps) = (c = p \<and> startsWith cs ps)"

fun includes_js :: "'a list \<Rightarrow> 'a list \<Rightarrow> bool" where
  "includes_js [] t = (t = [])"
| "includes_js (c # cs) t = (startsWith (c # cs) t \<or> includes_js cs t)"

section \<open>Regular expressions of the parser\<close>

text \<open>
  The fragment of ECMAScript regular expressions that the source uses: literal text,
  the classes \<open>\s\<close>, \<open>\d\<close> and \<open>[a-z]\<close>, the greedy quantifiers \<open>*\<close> and \<open>+\<close> on a
  class, the greedy option \<open>(?:r)?\<close>, one capturing group, and concatenation.
\<close>

datatype cclass = Space | Digit | LowerLetter

fun cls :: "cclass \<Rightarrow> 16 word \<Rightarrow> bool" where
  "cls Space c = isWhiteSpace c"
| "cls Digit c = isDigit c"
| "cls LowerLetter c = isLowerAZ c"

datatype regex =
    Lit jsstring
  | One cclass
  | Star cclass
  | Plus cclass
  | Opt regex
  | Group regex
  | Seq regex regex

text \<open>
  Backtracking matcher. A state is the rest of the input and the text of capture group 1,
  if set. \<open>rx_run r st\<close> lists every way \<open>r\<close> can match at the front of the input, in the
  order in which a backtracking engine tries them (greedy: longest repetition first,
  option taken first); the head of the list is the match the engine reports.
\<close>

type_synonym rx_state = "jsstring \<times> jsstring option"

fun rx_run :: "regex \<Rightarrow> rx_state \<Rightarrow> rx_state list" where
  "rx_run (Lit t) (s, cap) = (if startsWith s t then [(drop (length t) s, cap)] else [])"
| "rx_run (One k) (s, cap) =
     (case s of [] \<Rightarrow> [] | c # cs \<Rightarrow> if cls k c then [(cs, cap)] else [])"
| "rx_run (Star k) (s, cap) =
     map (\<lambda>n. (drop n s, cap)) (rev [0 ..< Suc (length (takeWhile (cls k) s))])"
| "rx_run (Plus k) (s, cap) =
     map (\<lambda>n. (drop n s, cap)) (rev [1 ..< Suc (length (takeWhile (cls k) s))])"
| "rx_run (Opt r) st = rx_run r st @ [st]"
| "rx_run (Group r) (s, cap) =
     map (\<lambda>(s', _). (s', Some (take (length s - length s') s))) (rx_run r (s, cap))"
| "rx_run (Seq a b) st = concat (map (rx_run b) (rx_run a st))"

text \<open>
  \<open>String.prototype.match\<close> with a regular expression without the \<open>g\<close> flag: the first
  match, scanning start positions from the left. \<open>None\<close> is \<open>null\<close>; \<open>Some cap\<close> is a
  match whose group 1 is \<open>cap\<close>.
\<close>

fun rx_exec :: "regex \<Rightarrow> jsstring \<Rightarrow> jsstring option option" where
  "rx_exec r [] = (case rx_run r ([], None) of [] \<Rightarrow> None | (_, cap) # _ \<Rightarrow> Some cap)"
| "rx_exec r (c # cs) =
     (case rx_run r (c # cs, None) of [] \<Rightarrow> rx_exec r cs | (_, cap) # _ \<Rightarrow> Some cap)"

fun seqs :: "regex list \<Rightarrow> regex" where
  "seqs [] = Lit []"
| "seqs [r] = r"
| "seqs (r # rs) = Seq r (seqs rs)"

text \<open>\<^verbatim>\<open>/longer than\s*(\d+)/\<close>\<close>

definition longerThanRx :: regex where
  "longerThanRx = seqs [Lit (js ''longer than''), Star Space, Group (Plus Digit)]"

text \<open>\<^verbatim>\<open>/contain(?:ing)?\s+(?:the\s+)?letter\s*([a-z])/\<close>\<close>

definition containsLetterRx :: regex where
  "containsLetterRx =
     seqs [Lit (js ''contain''), Opt (Lit (js ''ing'')), Plus Space,
           Opt (Seq (Lit (js ''the'')) (Plus Space)), Lit (js ''letter''), Star Space,
           Group (One LowerLetter)]"

text \<open>\<^verbatim>\<open>/contain(?:ing)?\s+(?:the\s+)?character\s*([a-z])/\<close>\<close>

definition containsCharacterRx :: regex where
  "containsCharacterRx =
     seqs [Lit (js ''contain''), Opt (Lit (js ''ing'')), Plus Space,
           Opt (Seq (Lit (js ''the'')) (Plus Space)), Lit (js ''character''), Star Space,
           Group (One LowerLetter)]"

section \<open>Numbers\<close>

text \<open>
  \<open>toNumber n\<close> is the double nearest to the natural number \<open>n\<close>: 53 significant bits,
  round to nearest, ties to even, \<open>Infinity\<close> where the rounded value reaches \<open>2 ^ 1024\<close>.
  Every natural number up to \<open>2 ^ 53\<close> is a double.
\<close>

fun bit_length :: "nat \<Rightarrow> nat" where
  "bit_length n = (if n = 0 then 0 else Suc (bit_length (n div 2)))"

declare bit_length.simps [simp del]

definition toNumber :: "nat \<Rightarrow> number" where
  "toNumber n =
     (let e = bit_length n - 53;
          q = n div 2 ^ e;
          r = n mod 2 ^ e;
          q' = (if 2 * r > 2 ^ e \<or> (2 * r = 2 ^ e \<and> odd q) then q + 1 else q)
      in if q' * 2 ^ e \<ge> 2 ^ 1024 then \<infinity> else enat (q' * 2 ^ e))"

text \<open>The mathematical value of a string of decimal digits.\<close>

definition digitsValue :: "jsstring \<Rightarrow> nat" where
  "digitsValue ds = foldl (\<lambda>a d. 10 * a + (unat d - 48)) 0 ds"

text \<open>\<open>Number(ds)\<close> for a string of decimal digits, and \<open>x + 1\<close> on doubles.\<close>

definition Number :: "jsstring \<Rightarrow> number" where
  "Number ds = toNumber (digitsValue ds)"

definition plusOne :: "number \<Rightarrow> number" where
  "plusOne x = (case x of enat n \<Rightarrow> toNumber (n + 1) | \<infinity> \<Rightarrow> \<infinity>)"

section \<open>Query filters and the natural-language parser\<close>

record QueryFilters =
  is_palindrome :: "bool option"
  min_length :: "number option"
  max_length :: "number option"
  word_count :: "number option"
  contains_character :: "jsstring option"

definition noFilters :: QueryFilters where
  "noFilters = \<lparr>is_palindrome = None, min_length = None, max_length = None,
                 word_count = None, contains_character = None\<rparr>"

datatype NaturalLanguageParseResult =
    Success QueryFilters
  | Conflict string
  | Unparsed string

text \<open>The variables that the closure \<open>setFilter\<close> of the parser reads and writes.\<close>

record parse_state =
  filters :: QueryFilters
  conflicts :: "string list"
  parsed :: bool

definition initial_state :: parse_state where
  "initial_state = \<lparr>filters = noFilters, conflicts = [], parsed = False\<rparr>"

text \<open>
  \<open>setFilter(key, value)\<close>: the field is given by its name and by its getter and setter
  on \<open>QueryFilters\<close>.
\<close>

definition setFilter ::
  "string \<Rightarrow> (QueryFilters \<Rightarrow> 'v option) \<Rightarrow> ('v option \<Rightarrow> QueryFilters \<Rightarrow> QueryFilters) \<Rightarrow>
   'v \<Rightarrow> parse_state \<Rightarrow> parse_state" where
  "setFilter key get put v st =
     (if get (filters st) \<noteq> None \<and> get (filters st) \<noteq> Some v
      then st\<lparr>conflicts := conflicts st @ [key]\<rparr>
      else if get (filters st) = None
      then st\<lparr>filters := put (Some v) (filters st), parsed := True\<rparr>
      else st)"

definition set_word_count :: "number \<Rightarrow> parse_state \<Rightarrow> parse_state" where
  "set_word_count = setFilter ''word_count'' word_count (\<lambda>v f. f\<lparr>word_count := v\<rparr>)"

definition set_is_palindrome :: "bool \<Rightarrow> parse_state \<Rightarrow> parse_state" where
  "set_is_palindrome = setFilter ''is_palindrome'' is_palindrome (\<lambda>v f. f\<lparr>is_palindrome := v\<rparr>)"

definition set_min_length :: "number \<Rightarrow> parse_state \<Rightarrow> parse_state" where
  "set_min_length = setFilter ''min_length'' min_length (\<lambda>v f. f\<lparr>min_length := v\<rparr>)"

definition set_contains_character :: "jsstring \<Rightarrow> parse_state \<Rightarrow> parse_state" where
  "set_contains_character =
     setFilter ''contains_character'' contains_character (\<lambda>v f. f\<lparr>contains_character := v\<rparr>)"

text \<open>The six phrase rules, in the order of the source.\<close>

definition rule_single_word :: "jsstring \<Rightarrow> parse_state \<Rightarrow> parse_state" where
  "rule_single_word lower st =
     (if includes_js lower (js ''single word'') then set_word_count 1 st else st)"

definition rule_palindrome :: "jsstring \<Rightarrow> parse_state \<Rightarrow> parse_state" where
  "rule_palindrome lower st =
     (if includes_js lower (js ''palindromic'') \<or> includes_js lower (js ''palindrome'')
      then set_is_palindrome True st else st)"

definition rule_longer_than :: "jsstring \<Rightarrow> parse_state \<Rightarrow> parse_state" where
  "rule_longer_than lower st =
     (case rx_exec longerThanRx lower of
        Some (Some ds) \<Rightarrow> set_min_length (plusOne (Number ds)) st
      | _ \<Rightarrow> st)"

definition rule_first_vowel :: "jsstring \<Rightarrow> parse_state \<Rightarrow> parse_state" where
  "rule_first_vowel lower st =
     (if includes_js lower (js ''first vowel'') then set_contains_character (js ''a'') st else st)"

definition rule_contains_letter :: "jsstring \<Rightarrow> parse_state \<Rightarrow> parse_state" where
  "rule_contains_letter lower st =
     (case rx_exec containsLetterRx lower of
        Some (Some x) \<Rightarrow> set_contains_character x st
      | _ \<Rightarrow> st)"

definition rule_contains_character :: "jsstring \<Rightarrow> parse_state \<Rightarrow> parse_state" where
  "rule_contains_character lower st =
     (case rx_exec containsCharacterRx lower of
        Some (Some x) \<Rightarrow> set_contains_character x st
      | _ \<Rightarrow> st)"

definition accumulate :: "jsstring \<Rightarrow> parse_state" where
  "accumulate lower =
     rule_contains_character lower
       (rule_contains_letter lower
         (rule_first_vowel lower
           (rule_longer_than lower
             (rule_palindrome lower
               (rule_single_word lower initial_state)))))"

definition unparsedMessage :: string where
  "unparsedMessage = ''Unable to parse natural language query''"

definition conflictMessage :: string where
  "conflictMessage = ''Query parsed but resulted in conflicting filters''"

text \<open>The length check of the parser and of the list route.\<close>

definition lengthsInverted :: "QueryFilters \<Rightarrow> bool" where
  "lengthsInverted f =
     (case (min_length f, max_length f) of
        (Some lo, Some hi) \<Rightarrow> lo > hi
      | _ \<Rightarrow> False)"

text \<open>The decisions of the parser after the last rule.\<close>

definition finish :: "parse_state \<Rightarrow> NaturalLanguageParseResult" where
  "finish st =
     (if length (conflicts st) > 0 then Conflict conflictMessage
      else if lengthsInverted (filters st) then Conflict conflictMessage
      else if \<not> parsed st then Unparsed unparsedMessage
      else Success (filters st))"

text \<open>\<open>parseNaturalLanguageQuery\<close>\<close>

definition parseNaturalLanguageQuery :: "unicode \<Rightarrow> jsstring \<Rightarrow> NaturalLanguageParseResult" where
  "parseNaturalLanguageQuery U query =
     (let normalized = trim query
      in if normalized = [] then Unparsed unparsedMessage
         else finish (accumulate (toLowerCase U normalized)))"

section \<open>Computing the properties of a value\<close>

subsection \<open>Iterating a string by code points\<close>

definition isHighSurrogate :: "16 word \<Rightarrow> bool" where
  "isHighSurrogate c = (0xD800 \<le> c \<and> c \<le> 0xDBFF)"

definition isLowSurrogate :: "16 word \<Rightarrow> bool" where
  "isLowSurrogate c = (0xDC00 \<le> c \<and> c \<le> 0xDFFF)"

text \<open>
  \<open>Array.from(input)\<close> runs the string iterator: a high surrogate followed by a low
  surrogate is one element, every other code unit is an element of its own.
\<close>

fun Array_from :: "jsstring \<Rightarrow> jsstring list" where
  "Array_from [] = []"
| "Array_from [c] = [[c]]"
| "Array_from (c # d # cs) =
     (if isHighSurrogate c \<and> isLowSurrogate d then [c, d] # Array_from cs
      else [c] # Array_from (d # cs))"

subsection \<open>normalizeForPalindrome\<close>

text \<open>The first \<open>replace\<close> removes the combining marks U+0300 to U+036F.\<close>

definition removeAccents :: "jsstring \<Rightarrow> jsstring" where
  "removeAccents s = filter (\<lambda>c. \<not> (0x0300 \<le> c \<and> c \<le> 0x036F)) s"

text \<open>
  \<open>Canonicalize\<close> of ECMAScript for a regular expression with the flag \<open>i\<close> and without
  the flag \<open>u\<close>: the character is upper-cased, unless the result is not a single code
  unit, or is an ASCII character for a character that is not.
\<close>

definition canonicalize :: "unicode \<Rightarrow> 16 word \<Rightarrow> 16 word" where
  "canonicalize U ch =
     (case toUpperCase U [ch] of
        [cu] \<Rightarrow> if ch \<ge> 128 \<and> cu < 128 then ch else cu
      | _ \<Rightarrow> ch)"

text \<open>The members of the class \<open>a-z0-9\<close>.\<close>

definition alnumClass :: "16 word list" where
  "alnumClass = map of_nat ([97 ..< 123] @ [48 ..< 58])"

text \<open>
  \<^verbatim>\<open>.replace(/[^a-z0-9]/gi, "")\<close>: a character matches the negated class, and is
  removed, when no member of the class has its canonical form.
\<close>

definition inClassIgnoreCase :: "unicode \<Rightarrow> 16 word \<Rightarrow> bool" where
  "inClassIgnoreCase U ch = (\<exists>a \<in> set alnumClass. canonicalize U a = canonicalize U ch)"

definition stripNonAlnum :: "unicode \<Rightarrow> jsstring \<Rightarrow> jsstring" where
  "stripNonAlnum U s = filter (inClassIgnoreCase U) s"

definition normalizeForPalindrome :: "unicode \<Rightarrow> jsstring \<Rightarrow> jsstring" where
  "normalizeForPalindrome U input =
     stripNonAlnum U (removeAccents (normalizeNFD U (toLowerCase U input)))"

subsection \<open>toHex\<close>

definition hexDigit :: "nat \<Rightarrow> 16 word" where
  "hexDigit n = (if n < 10 then of_nat (48 + n) else of_nat (97 + (n - 10)))"

text \<open>\<open>Number.prototype.toString(16)\<close> on a non-negative integer.\<close>

fun toString16 :: "nat \<Rightarrow> jsstring" where
  "toString16 n = (if n < 16 then [hexDigit n] else toString16 (n div 16) @ [hexDigit (n mod 16)])"

declare toString16.simps [simp del]

text \<open>\<^verbatim>\<open>.padStart(2, "0")\<close>\<close>

definition padStart2 :: "jsstring \<Rightarrow> jsstring" where
  "padStart2 s = replicate (2 - length s) 0x30 @ s"

definition toHex :: "8 word list \<Rightarrow> jsstring" where
  "toHex buffer = concat (map (\<lambda>byte. padStart2 (toString16 (unat byte))) buffer)"

subsection \<open>calculateWordCount\<close>

text \<open>
  \<open>trimmed.split(/\s+/)\<close> on a non-empty string, after the algorithm of
  \<open>RegExp.prototype[Symbol.split]\<close>: the scan keeps the piece since the end of the last
  separator (\<open>cur\<close>); where the expression matches, greedily, the piece is emitted and the
  scan goes on behind the match; at the end of the input the last piece is emitted. A match
  of \<open>\s+\<close> is never empty, so the algorithm's test for an empty match never fires.
\<close>

function split_ws :: "jsstring \<Rightarrow> jsstring \<Rightarrow> jsstring list" where
  "split_ws cur [] = [cur]"
| "split_ws cur (c # cs) =
     (if isWhiteSpace c then cur # split_ws [] (dropWhile isWhiteSpace cs)
      else split_ws (cur @ [c]) cs)"
  by pat_completeness auto
termination
  by (relation "measure (\<lambda>(cur, s). length s)")
    (auto simp: length_dropWhile_le less_Suc_eq_le)

definition calculateWordCount :: "jsstring \<Rightarrow> nat" where
  "calculateWordCount input =
     (let trimmed = trim input
      in if length trimmed = 0 then 0 else length (split_ws [] trimmed))"

subsection \<open>buildCharacterFrequencyMap\<close>

text \<open>
  The counts are non-negative integers far below \<open>2 ^ 53\<close> (a string has fewer code units
  than that), so the additions on doubles are exact and the counts are natural numbers.
\<close>

type_synonym frequency = "jsstring \<rightharpoonup> nat"

fun countLoop :: "jsstring list \<Rightarrow> frequency \<Rightarrow> frequency" where
  "countLoop [] frequency = frequency"
| "countLoop (char # rest) frequency =
     countLoop rest (frequency(char \<mapsto> (case frequency char of None \<Rightarrow> 0 | Some n \<Rightarrow> n) + 1))"

definition buildCharacterFrequencyMap :: "jsstring \<Rightarrow> frequency" where
  "buildCharacterFrequencyMap input = countLoop (Array_from input) Map.empty"

subsection \<open>TextEncoder\<close>

text \<open>
  \<open>encoder.encode(value)\<close>: the string is read as scalar values, a surrogate that is not
  part of a pair being replaced by U+FFFD, and each scalar value is written in UTF-8.
\<close>

definition scalarValue :: "jsstring \<Rightarrow> nat" where
  "scalarValue e =
     (case e of
        [c] \<Rightarrow> if isHighSurrogate c \<or> isLowSurrogate c then 0xFFFD else unat c
      | [c, d] \<Rightarrow> 0x10000 + (unat c - 0xD800) * 0x400 + (unat d - 0xDC00)
      | _ \<Rightarrow> 0xFFFD)"

definition utf8 :: "nat \<Rightarrow> 8 word list" where
  "utf8 n =
     (if n < 0x80 then [of_nat n]
      else if n < 0x800 then [of_nat (0xC0 + n div 0x40), of_nat (0x80 + n mod 0x40)]
      else if n < 0x10000 then
        [of_nat (0xE0 + n div 0x1000), of_nat (0x80 + (n div 0x40) mod 0x40),
         of_nat (0x80 + n mod 0x40)]
      else
        [of_nat (0xF0 + n div 0x40000), of_nat (0x80 + (n div 0x1000) mod 0x40),
         of_nat (0x80 + (n div 0x40) mod 0x40), of_nat (0x80 + n mod 0x40)])"

definition encode :: "jsstring \<Rightarrow> 8 word list" where
  "encode s = concat (map (\<lambda>e. utf8 (scalarValue e)) (Array_from s))"

subsection \<open>computeStringProperties\<close>

text \<open>The field \<open>character_frequency_map\<close> has the type \<open>'m\<close>: see \<open>parseFrequencyMap\<close>.\<close>

record 'm StringProperties =
  p_length :: nat
  p_is_palindrome :: bool
  p_unique_characters :: nat
  p_word_count :: nat
  p_sha256_hash :: jsstring
  p_character_frequency_map :: 'm

text \<open>
  \<open>digest\<close> is \<open>crypto.subtle.digest("SHA-256", _)\<close> of the runtime, from bytes to bytes.
  \<open>normalized.split("").reverse().join("")\<close> reverses the code units.
\<close>

definition computeStringProperties ::
  "unicode \<Rightarrow> (8 word list \<Rightarrow> 8 word list) \<Rightarrow> jsstring \<Rightarrow> frequency StringProperties" where
  "computeStringProperties U digest v =
     (let normalized = normalizeForPalindrome U v;
          reversed = rev normalized;
          shaBuffer = digest (encode v)
      in \<lparr>p_length = length (Array_from v),
          p_is_palindrome = (length normalized > 0 \<and> normalized = reversed),
          p_unique_characters = card (set (Array_from v)),
          p_word_count = calculateWordCount v,
          p_sha256_hash = toHex shaBuffer,
          p_character_frequency_map = buildCharacterFrequencyMap v\<rparr>)"

section \<open>Stored rows\<close>

subsection \<open>JSON.parse\<close>

text \<open>
  The values of JSON. A number keeps its literal text; an object keeps its members in the
  order of the text.
\<close>

datatype json =
    JNull
  | JBool bool
  | JNumber jsstring
  | JString jsstring
  | JArray "json list"
  | JObject "(jsstring \<times> json) list"

datatype syntax_error = SyntaxError

definition isJsonSpace :: "16 word \<Rightarrow> bool" where
  "isJsonSpace c = (c = 0x20 \<or> c = 0x9 \<or> c = 0xA \<or> c = 0xD)"

definition skipSpace :: "jsstring \<Rightarrow> jsstring" where
  "skipSpace s = dropWhile isJsonSpace s"

definition hexValue :: "16 word \<Rightarrow> nat option" where
  "hexValue c =
     (if isDigit c then Some (unat c - 48)
      else if 0x61 \<le> c \<and> c \<le> 0x66 then Some (unat c - 87)
      else if 0x41 \<le> c \<and> c \<le> 0x46 then Some (unat c - 55)
      else None)"

text \<open>The character after a backslash, other than \<open>u\<close>.\<close>

definition escapeChar :: "16 word \<Rightarrow> 16 word option" where
  "escapeChar e =
     (if e = 0x22 \<or> e = 0x5C \<or> e = 0x2F then Some e
      else if e = 0x62 then Some 0x08
      else if e = 0x66 then Some 0x0C
      else if e = 0x6E then Some 0x0A
      else if e = 0x72 then Some 0x0D
      else if e = 0x74 then Some 0x09
      else None)"

definition cons_fst :: "'a \<Rightarrow> ('a list \<times> 'b) option \<Rightarrow> ('a list \<times> 'b) option" where
  "cons_fst x r = map_option (\<lambda>(t, rest). (x # t, rest)) r"

text \<open>The characters of a string after its opening quote, and the text behind the closing quote.\<close>

fun parseChars :: "jsstring \<Rightarrow> (jsstring \<times> jsstring) option" where
  "parseChars [] = None"
| "parseChars (c # cs) =
     (if c = 0x22 then Some ([], cs)
      else if c = 0x5C then
        (case cs of
           [] \<Rightarrow> None
         | e # r \<Rightarrow>
             if e = 0x75 then
               (case r of
                  h1 # h2 # h3 # h4 # r' \<Rightarrow>
                    (case (hexValue h1, hexValue h2, hexValue h3, hexValue h4) of
                       (Some a, Some b, Some c', Some d) \<Rightarrow>
                         cons_fst (of_nat (((a * 16 + b) * 16 + c') * 16 + d)) (parseChars r')
                     | _ \<Rightarrow> None)
                | _ \<Rightarrow> None)
             else
               (case escapeChar e of
                  None \<Rightarrow> None
                | Some x \<Rightarrow> cons_fst x (parseChars r)))
      else if c < 0x20 then None
      else cons_fst c (parseChars cs))"

text \<open>A number: its literal text and the text behind it.\<close>

definition parseExponent :: "jsstring \<Rightarrow> jsstring \<Rightarrow> (jsstring \<times> jsstring) option" where
  "parseExponent lit s =
     (case s of
        [] \<Rightarrow> Some (lit, s)
      | c # r \<Rightarrow>
          if c = 0x65 \<or> c = 0x45 then
            (let (sg, r1) = (case r of
                               [] \<Rightarrow> ([], r)
                             | x # r2 \<Rightarrow> if x = 0x2B \<or> x = 0x2D then ([x], r2) else ([], r));
                 ds = takeWhile isDigit r1
             in if ds = [] then None else Some (lit @ c # sg @ ds, dropWhile isDigit r1))
          else Some (lit, s))"

definition parseFraction :: "jsstring \<Rightarrow> jsstring \<Rightarrow> (jsstring \<times> jsstring) option" where
  "parseFraction lit s =
     (case s of
        [] \<Rightarrow> parseExponent lit s
      | c # r \<Rightarrow>
          if c = 0x2E then
            (let ds = takeWhile isDigit r
             in if ds = [] then None else parseExponent (lit @ c # ds) (dropWhile isDigit r))
          else parseExponent lit s)"

definition parseNumber :: "jsstring \<Rightarrow> (jsstring \<times> jsstring) option" where
  "parseNumber s =
     (let (sg, s1) = (case s of
                        [] \<Rightarrow> ([], s)
                      | c # r \<Rightarrow> if c = 0x2D then ([c], r) else ([], s))
      in case s1 of
           [] \<Rightarrow> None
         | c # r \<Rightarrow>
             if c = 0x30 then parseFraction (sg @ [c]) r
             else if 0x31 \<le> c \<and> c \<le> 0x39
             then parseFraction (sg @ c # takeWhile isDigit r) (dropWhile isDigit r)
             else None)"

text \<open>
  Values, the elements of an array behind \<open>[\<close> and the members of an object behind
  \<open>{\<close>. The first argument bounds the depth of the calls, as the stack of the engine
  does; where it runs out the text is refused, as it is with a \<open>RangeError\<close>.
\<close>

fun parseValue :: "nat \<Rightarrow> jsstring \<Rightarrow> (json \<times> jsstring) option"
and parseElements :: "nat \<Rightarrow> jsstring \<Rightarrow> (json list \<times> jsstring) option"
and parseMembers :: "nat \<Rightarrow> jsstring \<Rightarrow> ((jsstring \<times> json) list \<times> jsstring) option"
where
  "parseValue 0 s = None"
| "parseValue (Suc n) s =
     (case skipSpace s of
        [] \<Rightarrow> None
      | c # r \<Rightarrow>
          if c = 0x7B then
            (case skipSpace r of
               [] \<Rightarrow> None
             | c' # r' \<Rightarrow>
                 if c' = 0x7D then Some (JObject [], r')
                 else map_option (\<lambda>(ms, rest). (JObject ms, rest)) (parseMembers n r))
          else if c = 0x5B then
            (case skipSpace r of
               [] \<Rightarrow> None
             | c' # r' \<Rightarrow>
                 if c' = 0x5D then Some (JArray [], r')
                 else map_option (\<lambda>(vs, rest). (JArray vs, rest)) (parseElements n r))
          else if c = 0x22 then map_option (\<lambda>(t, rest). (JString t, rest)) (parseChars r)
          else if startsWith (c # r) (js ''true'') then Some (JBool True, drop 4 (c # r))
          else if startsWith (c # r) (js ''false'') then Some (JBool False, drop 5 (c # r))
          else if startsWith (c # r) (js ''null'') then Some (JNull, drop 4 (c # r))
          else map_option (\<lambda>(t, rest). (JNumber t, rest)) (parseNumber (c # r)))"
| "parseElements 0 s = None"
| "parseElements (Suc n) s =
     (case parseValue n s of
        None \<Rightarrow> None
      | Some (v, r) \<Rightarrow>
          (case skipSpace r of
             [] \<Rightarrow> None
           | c # r' \<Rightarrow>
               if c = 0x2C then cons_fst v (parseElements n r')
               else if c = 0x5D then Some ([v], r')
               else None))"
| "parseMembers 0 s = None"
| "parseMembers (Suc n) s =
     (case skipSpace s of
        [] \<Rightarrow> None
      | c # r \<Rightarrow>
          if c = 0x22 then
            (case parseChars r of
               None \<Rightarrow> None
             | Some (k, r1) \<Rightarrow>
                 (case skipSpace r1 of
                    [] \<Rightarrow> None
                  | c1 # r2 \<Rightarrow>
                      if c1 = 0x3A then
                        (case parseValue n r2 of
                           None \<Rightarrow> None
                         | Some (v, r3) \<Rightarrow>
                             (case skipSpace r3 of
                                [] \<Rightarrow> None
                              | c3 # r4 \<Rightarrow>
                                  if c3 = 0x2C then cons_fst (k, v) (parseMembers n r4)
                                  else if c3 = 0x7D then Some ([(k, v)], r4)
                                  else None))
                      else None))
          else None)"

text \<open>
  \<open>JSON.parse(raw)\<close>: the value, or the exception that it throws. The depth allowed
  grows with the text: twice its length, and two.
\<close>

definition JSON_parse :: "jsstring \<Rightarrow> syntax_error + json" where
  "JSON_parse raw =
     (case parseValue (2 * length raw + 2) raw of
        None \<Rightarrow> Inl SyntaxError
      | Some (v, rest) \<Rightarrow> if skipSpace rest = [] then Inr v else Inl SyntaxError)"

subsection \<open>parseFrequencyMap and mapRowToRecord\<close>

definition typeof :: "json \<Rightarrow> string" where
  "typeof v =
     (case v of
        JNull \<Rightarrow> ''object''
      | JBool _ \<Rightarrow> ''boolean''
      | JNumber _ \<Rightarrow> ''number''
      | JString _ \<Rightarrow> ''string''
      | JArray _ \<Rightarrow> ''object''
      | JObject _ \<Rightarrow> ''object'')"

text \<open>
  \<open>parsed && typeof parsed === "object"\<close>: of the values whose \<open>typeof\<close> is
  \<open>"object"\<close>, only \<open>null\<close> is falsy.
\<close>

definition parseFrequencyMap :: "jsstring \<Rightarrow> json" where
  "parseFrequencyMap raw =
     (case JSON_parse raw of
        Inl SyntaxError \<Rightarrow> JObject []
      | Inr v \<Rightarrow> if v \<noteq> JNull \<and> typeof v = ''object'' then v else JObject [])"

record StoredStringRow =
  r_id :: jsstring
  r_value :: jsstring
  r_length :: nat
  r_is_palindrome :: nat
  r_unique_characters :: nat
  r_word_count :: nat
  r_character_frequency_map :: jsstring
  r_created_at :: jsstring

record 'm StoredStringRecord =
  rec_id :: jsstring
  rec_value :: jsstring
  rec_properties :: "'m StringProperties"
  rec_created_at :: jsstring

definition mapRowToRecord :: "StoredStringRow \<Rightarrow> json StoredStringRecord" where
  "mapRowToRecord row =
     \<lparr>rec_id = r_id row,
      rec_value = r_value row,
      rec_properties =
        \<lparr>p_length = r_length row,
         p_is_palindrome = (r_is_palindrome row \<noteq> 0),
         p_unique_characters = r_unique_characters row,
         p_word_count = r_word_count row,
         p_sha256_hash = r_id row,
         p_character_frequency_map = parseFrequencyMap (r_character_frequency_map row)\<rparr>,
      rec_created_at = r_created_at row\<rparr>"

section \<open>The table of strings\<close>

text \<open>
  The database is D1, that is SQLite. The table \<open>strings\<close> is the one that the head of
  \<open>routes/strings.ts\<close> describes: the eight columns of \<open>StoredStringRow\<close>, with
  \<open>id\<close> as primary key and \<open>value\<close> unique. The file \<open>db/schema.sql\<close> declares the
  same two constraints, and leaves out the column \<open>length\<close> that the statements of the
  routes name. A table is the list of its rows, in the order of insertion; a text column
  holds the string that was bound.
\<close>

type_synonym table = "StoredStringRow list"

datatype d1_error = UniqueConstraintFailed

text \<open>\<^verbatim>\<open>SELECT id FROM strings WHERE id = ? OR value = ? LIMIT 1\<close>, then \<open>first()\<close>\<close>

definition selectExisting :: "table \<Rightarrow> jsstring \<Rightarrow> jsstring \<Rightarrow> StoredStringRow option" where
  "selectExisting db i v = find (\<lambda>r. r_id r = i \<or> r_value r = v) db"

text \<open>\<^verbatim>\<open>INSERT INTO strings (...) VALUES (...)\<close>, under the two constraints of the table\<close>

definition insertRow :: "table \<Rightarrow> StoredStringRow \<Rightarrow> d1_error + table" where
  "insertRow db row =
     (if \<exists>r \<in> set db. r_id r = r_id row \<or> r_value r = r_value row
      then Inl UniqueConstraintFailed
      else Inr (db @ [row]))"

subsection \<open>Conditions of a query\<close>

datatype param = NumberParam number | TextParam jsstring

text \<open>
  The conditions and the parameters that \<open>fetchRecords\<close> collects. The source keeps two
  lists of the same length; every condition has one placeholder, so the model pairs each
  condition with its parameter.
\<close>

definition buildConditions :: "unicode \<Rightarrow> QueryFilters \<Rightarrow> (string \<times> param) list" where
  "buildConditions U f =
     (case is_palindrome f of
        None \<Rightarrow> []
      | Some b \<Rightarrow> [(''is_palindrome = ?'', NumberParam (if b then 1 else 0))]) @
     (case min_length f of
        None \<Rightarrow> []
      | Some n \<Rightarrow> [(''length >= ?'', NumberParam n)]) @
     (case max_length f of
        None \<Rightarrow> []
      | Some n \<Rightarrow> [(''length <= ?'', NumberParam n)]) @
     (case word_count f of
        None \<Rightarrow> []
      | Some n \<Rightarrow> [(''word_count = ?'', NumberParam n)]) @
     (case contains_character f of
        None \<Rightarrow> []
      | Some ch \<Rightarrow> [(''LOWER(value) LIKE ?'', TextParam (js ''%'' @ toLowerCase U ch @ js ''%''))])"

text \<open>
  SQLite's \<open>LOWER\<close> maps the 26 ASCII capitals and nothing else. Its \<open>LIKE\<close> reads
  \<open>%\<close> in the pattern as any sequence of characters, \<open>_\<close> as any one character, and
  compares every other character with the text without regard to ASCII case. A character
  of the text is a code point.
\<close>

definition sqlLower :: "jsstring \<Rightarrow> jsstring" where
  "sqlLower s = map asciiLower s"

fun likeCodePoints :: "jsstring list \<Rightarrow> jsstring list \<Rightarrow> bool" where
  "likeCodePoints [] s = (s = [])"
| "likeCodePoints (p # ps) [] = (p = [0x25] \<and> likeCodePoints ps [])"
| "likeCodePoints (p # ps) (c # cs) =
     (if p = [0x25] then likeCodePoints ps (c # cs) \<or> likeCodePoints (p # ps) cs
      else if p = [0x5F] then likeCodePoints ps cs
      else map asciiLower p = map asciiLower c \<and> likeCodePoints ps cs)"

definition like :: "jsstring \<Rightarrow> jsstring \<Rightarrow> bool" where
  "like pattern s = likeCodePoints (Array_from pattern) (Array_from s)"

text \<open>A condition of \<open>fetchRecords\<close> with its parameter, on a row.\<close>

definition evalCondition :: "string \<times> param \<Rightarrow> StoredStringRow \<Rightarrow> bool" where
  "evalCondition cp row =
     (case cp of
        (c, NumberParam n) \<Rightarrow>
          if c = ''is_palindrome = ?'' then enat (r_is_palindrome row) = n
          else if c = ''length >= ?'' then enat (r_length row) \<ge> n
          else if c = ''length <= ?'' then enat (r_length row) \<le> n
          else if c = ''word_count = ?'' then enat (r_word_count row) = n
          else False
      | (c, TextParam t) \<Rightarrow>
          if c = ''LOWER(value) LIKE ?'' then like t (sqlLower (r_value row))
          else False)"

text \<open>
  \<open>ORDER BY created_at DESC\<close>: text compares by its UTF-8 bytes. Rows with the same
  \<open>created_at\<close> keep the order of the table.
\<close>

fun bytesLess :: "8 word list \<Rightarrow> 8 word list \<Rightarrow> bool" where
  "bytesLess [] [] = False"
| "bytesLess [] (y # ys) = True"
| "bytesLess (x # xs) [] = False"
| "bytesLess (x # xs) (y # ys) = (x < y \<or> (x = y \<and> bytesLess xs ys))"

fun insertDescending :: "StoredStringRow \<Rightarrow> table \<Rightarrow> table" where
  "insertDescending row [] = [row]"
| "insertDescending row (r # rs) =
     (if bytesLess (encode (r_created_at r)) (encode (r_created_at row)) then row # r # rs
      else r # insertDescending row rs)"

definition orderByCreatedAtDesc :: "table \<Rightarrow> table" where
  "orderByCreatedAtDesc db = foldl (\<lambda>sorted row. insertDescending row sorted) [] db"

subsection \<open>fetchRecords and applyFilters\<close>

definition fetchRecords :: "unicode \<Rightarrow> table \<Rightarrow> QueryFilters \<Rightarrow> json StoredStringRecord list" where
  "fetchRecords U db f =
     (let conditions = buildConditions U f;
          rows = orderByCreatedAtDesc (filter (\<lambda>row. \<forall>cp \<in> set conditions. evalCondition cp row) db)
      in map mapRowToRecord rows)"

definition keepRecord :: "unicode \<Rightarrow> QueryFilters \<Rightarrow> 'm StoredStringRecord \<Rightarrow> bool" where
  "keepRecord U f record =
     (let props = rec_properties record
      in if is_palindrome f \<noteq> None \<and> is_palindrome f \<noteq> Some (p_is_palindrome props) then False
         else if (case min_length f of None \<Rightarrow> False | Some n \<Rightarrow> enat (p_length props) < n)
         then False
         else if (case max_length f of None \<Rightarrow> False | Some n \<Rightarrow> enat (p_length props) > n)
         then False
         else if (case word_count f of None \<Rightarrow> False | Some n \<Rightarrow> enat (p_word_count props) \<noteq> n)
         then False
         else if (case contains_character f of
                    None \<Rightarrow> False
                  | Some ch \<Rightarrow>
                      \<not> includes_js (toLowerCase U (rec_value record)) (toLowerCase U ch))
         then False
         else True)"

definition applyFilters ::
  "unicode \<Rightarrow> 'm StoredStringRecord list \<Rightarrow> QueryFilters \<Rightarrow> 'm StoredStringRecord list" where
  "applyFilters U records f = filter (keepRecord U f) records"

section \<open>Routes\<close>

datatype body =
    ErrorBody string
  | CreatedBody "frequency StoredStringRecord"
  | ListBody "json StoredStringRecord list" nat QueryFilters
  | InterpretedBody "json StoredStringRecord list" nat jsstring QueryFilters

text \<open>
  What a request ends in: a response with its status, or an exception that the handler
  does not catch.
\<close>

datatype response = Response nat body | Uncaught d1_error

subsection \<open>POST /strings\<close>

text \<open>
  The handler awaits the database twice: for the \<open>SELECT\<close> and for the \<open>INSERT\<close>.
  \<open>stringify\<close> is \<open>JSON.stringify\<close> on the frequency map, \<open>created_at\<close> is
  \<open>new Date().toISOString()\<close>.
\<close>

definition newRow ::
  "(frequency \<Rightarrow> jsstring) \<Rightarrow> jsstring \<Rightarrow> jsstring \<Rightarrow> frequency StringProperties \<Rightarrow>
   StoredStringRow" where
  "newRow stringify created_at v properties =
     \<lparr>r_id = p_sha256_hash properties,
      r_value = v,
      r_length = p_length properties,
      r_is_palindrome = (if p_is_palindrome properties then 1 else 0),
      r_unique_characters = p_unique_characters properties,
      r_word_count = p_word_count properties,
      r_character_frequency_map = stringify (p_character_frequency_map properties),
      r_created_at = created_at\<rparr>"

text \<open>The handler up to the first await: is there a row with this id or this value?\<close>

definition postCheck :: "frequency StringProperties \<Rightarrow> jsstring \<Rightarrow> table \<Rightarrow> bool" where
  "postCheck properties v db = (selectExisting db (p_sha256_hash properties) v \<noteq> None)"

text \<open>The handler behind the check, when no row was found.\<close>

definition postWrite ::
  "(frequency \<Rightarrow> jsstring) \<Rightarrow> jsstring \<Rightarrow> frequency StringProperties \<Rightarrow> jsstring \<Rightarrow> table \<Rightarrow>
   table \<times> response" where
  "postWrite stringify created_at properties v db =
     (case insertRow db (newRow stringify created_at v properties) of
        Inl e \<Rightarrow> (db, Uncaught e)
      | Inr db' \<Rightarrow>
          (db', Response 201 (CreatedBody
             \<lparr>rec_id = p_sha256_hash properties, rec_value = v,
              rec_properties = properties, rec_created_at = created_at\<rparr>)))"

definition alreadyExists :: response where
  "alreadyExists = Response 409 (ErrorBody ''String already exists in the system'')"

definition postString ::
  "unicode \<Rightarrow> (8 word list \<Rightarrow> 8 word list) \<Rightarrow> (frequency \<Rightarrow> jsstring) \<Rightarrow> jsstring \<Rightarrow> jsstring \<Rightarrow>
   table \<Rightarrow> table \<times> response" where
  "postString U digest stringify created_at v db =
     (let properties = computeStringProperties U digest v
      in if postCheck properties v db then (db, alreadyExists)
         else postWrite stringify created_at properties v db)"

text \<open>
  Two requests whose handlers both run their check before either runs its write: the
  checks read the same table, then the first write and the second write follow.
\<close>

definition racingPosts ::
  "unicode \<Rightarrow> (8 word list \<Rightarrow> 8 word list) \<Rightarrow> (frequency \<Rightarrow> jsstring) \<Rightarrow>
   jsstring \<times> jsstring \<Rightarrow> jsstring \<times> jsstring \<Rightarrow> table \<Rightarrow> table \<times> response \<times> response" where
  "racingPosts U digest stringify first second db =
     (let (t1, v1) = first;
          (t2, v2) = second;
          p1 = computeStringProperties U digest v1;
          p2 = computeStringProperties U digest v2;
          found1 = postCheck p1 v1 db;
          found2 = postCheck p2 v2 db;
          (db1, r1) = (if found1 then (db, alreadyExists) else postWrite stringify t1 p1 v1 db);
          (db2, r2) = (if found2 then (db1, alreadyExists) else postWrite stringify t2 p2 v2 db1)
      in (db2, r1, r2))"

subsection \<open>GET /strings and GET /strings/filter-by-natural-language\<close>

text \<open>The response of \<open>listStringsValidationHook\<close> to a query that fails its schema.\<close>

definition listStringsValidationError :: response where
  "listStringsValidationError = Response 400 (ErrorBody ''Invalid query parameter values or types'')"

text \<open>The handler of the list route, on the filters that passed the schema.\<close>

definition listStrings :: "unicode \<Rightarrow> table \<Rightarrow> QueryFilters \<Rightarrow> response" where
  "listStrings U db f =
     (if lengthsInverted f
      then Response 400 (ErrorBody ''Invalid query parameter values or types'')
      else (let records = fetchRecords U db f
            in Response 200 (ListBody records (length records) f)))"

definition filterByNaturalLanguage :: "unicode \<Rightarrow> table \<Rightarrow> jsstring \<Rightarrow> response" where
  "filterByNaturalLanguage U db query =
     (case parseNaturalLanguageQuery U query of
        Unparsed message \<Rightarrow> Response 400 (ErrorBody message)
      | Conflict message \<Rightarrow> Response 422 (ErrorBody message)
      | Success f \<Rightarrow>
          (let records = fetchRecords U db f
           in Response 200 (InterpretedBody records (length records) query f)))"

section \<open>The specification's notions\<close>

subsection \<open>Assignments of recognized phrases\<close>

text \<open>
  The table of the parser: every phrase rule that recognizes its phrase in the lower-cased
  query produces one assignment to a filter field.
\<close>

datatype assignment =
    AWordCount number
  | AIsPalindrome bool
  | AMinLength number
  | AContainsCharacter jsstring

definition recognized :: "jsstring \<Rightarrow> assignment list" where
  "recognized lower =
     (if includes_js lower (js ''single word'') then [AWordCount 1] else []) @
     (if includes_js lower (js ''palindromic'') \<or> includes_js lower (js ''palindrome'')
      then [AIsPalindrome True] else []) @
     (case rx_exec longerThanRx lower of
        Some (Some ds) \<Rightarrow> [AMinLength (plusOne (Number ds))]
      | _ \<Rightarrow> []) @
     (if includes_js lower (js ''first vowel'') then [AContainsCharacter (js ''a'')] else []) @
     (case rx_exec containsLetterRx lower of
        Some (Some x) \<Rightarrow> [AContainsCharacter x]
      | _ \<Rightarrow> []) @
     (case rx_exec containsCharacterRx lower of
        Some (Some x) \<Rightarrow> [AContainsCharacter x]
      | _ \<Rightarrow> [])"

fun sameField :: "assignment \<Rightarrow> assignment \<Rightarrow> bool" where
  "sameField (AWordCount _) (AWordCount _) = True"
| "sameField (AIsPalindrome _) (AIsPalindrome _) = True"
| "sameField (AMinLength _) (AMinLength _) = True"
| "sameField (AContainsCharacter _) (AContainsCharacter _) = True"
| "sameField _ _ = False"

text \<open>Two assignments give different values to the same field.\<close>

definition conflicting :: "assignment list \<Rightarrow> bool" where
  "conflicting as = (\<exists>a \<in> set as. \<exists>b \<in> set as. sameField a b \<and> a \<noteq> b)"

fun firstOf :: "('a \<Rightarrow> 'b option) \<Rightarrow> 'a list \<Rightarrow> 'b option" where
  "firstOf p [] = None"
| "firstOf p (a # as) = (case p a of Some v \<Rightarrow> Some v | None \<Rightarrow> firstOf p as)"

fun wordCountOf :: "assignment \<Rightarrow> number option" where
  "wordCountOf (AWordCount n) = Some n"
| "wordCountOf _ = None"

fun isPalindromeOf :: "assignment \<Rightarrow> bool option" where
  "isPalindromeOf (AIsPalindrome b) = Some b"
| "isPalindromeOf _ = None"

fun minLengthOf :: "assignment \<Rightarrow> number option" where
  "minLengthOf (AMinLength n) = Some n"
| "minLengthOf _ = None"

fun containsCharacterOf :: "assignment \<Rightarrow> jsstring option" where
  "containsCharacterOf (AContainsCharacter x) = Some x"
| "containsCharacterOf _ = None"

text \<open>The filters that a list of assignments accumulates: each field has the value assigned to it.\<close>

definition filtersOf :: "assignment list \<Rightarrow> QueryFilters" where
  "filtersOf as =
     \<lparr>is_palindrome = firstOf isPalindromeOf as,
      min_length = firstOf minLengthOf as,
      max_length = None,
      word_count = firstOf wordCountOf as,
      contains_character = firstOf containsCharacterOf as\<rparr>"

text \<open>The call of \<open>setFilter\<close> that an assignment stands for, and a sequence of such calls.\<close>

fun applyAssignment :: "assignment \<Rightarrow> parse_state \<Rightarrow> parse_state" where
  "applyAssignment (AWordCount n) st = set_word_count n st"
| "applyAssignment (AIsPalindrome b) st = set_is_palindrome b st"
| "applyAssignment (AMinLength n) st = set_min_length n st"
| "applyAssignment (AContainsCharacter x) st = set_contains_character x st"

definition runAssignments :: "assignment list \<Rightarrow> parse_state \<Rightarrow> parse_state" where
  "runAssignments as st = foldl (\<lambda>s a. applyAssignment a s) st as"

definition stepConflict :: "assignment \<Rightarrow> assignment list \<Rightarrow> bool" where
  "stepConflict a as =
     (case a of
        AWordCount n \<Rightarrow> firstOf wordCountOf as \<noteq> None \<and> firstOf wordCountOf as \<noteq> Some n
      | AIsPalindrome b \<Rightarrow>
          firstOf isPalindromeOf as \<noteq> None \<and> firstOf isPalindromeOf as \<noteq> Some b
      | AMinLength n \<Rightarrow> firstOf minLengthOf as \<noteq> None \<and> firstOf minLengthOf as \<noteq> Some n
      | AContainsCharacter x \<Rightarrow>
          firstOf containsCharacterOf as \<noteq> None \<and> firstOf containsCharacterOf as \<noteq> Some x)"

subsection \<open>The normalized form of a value\<close>

definition isAsciiAlnum :: "16 word \<Rightarrow> bool" where
  "isAsciiAlnum c = (isLowerAZ c \<or> isUpperAZ c \<or> isDigit c)"

text \<open>
  Lower-cased, decomposed and freed of the combining marks, and with every character
  removed that is not an ASCII letter or digit.
\<close>

definition normalizedForm :: "unicode \<Rightarrow> jsstring \<Rightarrow> jsstring" where
  "normalizedForm U v = filter isAsciiAlnum (removeAccents (normalizeNFD U (toLowerCase U v)))"

subsection \<open>Code points, tokens and hexadecimal digits\<close>

text \<open>The code points of a string, by the UTF-16 decoding; a lone surrogate is a code point.\<close>

fun codePoints :: "jsstring \<Rightarrow> nat list" where
  "codePoints [] = []"
| "codePoints [c] = [unat c]"
| "codePoints (c # d # cs) =
     (if isHighSurrogate c \<and> isLowSurrogate d
      then (0x10000 + (unat c - 0xD800) * 0x400 + (unat d - 0xDC00)) # codePoints cs
      else unat c # codePoints (d # cs))"

text \<open>The elements of the string iterator: one code unit, or a surrogate pair.\<close>

definition isElement :: "jsstring \<Rightarrow> bool" where
  "isElement e = ((\<exists>c. e = [c]) \<or> (\<exists>h l. e = [h, l] \<and> isHighSurrogate h \<and> isLowSurrogate l))"

text \<open>The code point of one element of the string iterator.\<close>

definition codePointOf :: "jsstring \<Rightarrow> nat" where
  "codePointOf e =
     (case e of
        [c] \<Rightarrow> unat c
      | [c, d] \<Rightarrow> 0x10000 + (unat c - 0xD800) * 0x400 + (unat d - 0xDC00)
      | _ \<Rightarrow> 0)"

text \<open>The maximal runs of characters that are not whitespace.\<close>

fun tokensFrom :: "jsstring \<Rightarrow> jsstring \<Rightarrow> jsstring list" where
  "tokensFrom cur [] = (if cur = [] then [] else [cur])"
| "tokensFrom cur (c # cs) =
     (if isWhiteSpace c then (if cur = [] then [] else [cur]) @ tokensFrom [] cs
      else tokensFrom (cur @ [c]) cs)"

definition tokens :: "jsstring \<Rightarrow> jsstring list" where
  "tokens s = tokensFrom [] s"

text \<open>A byte in two lower-case hexadecimal digits.\<close>

definition hexPair :: "8 word \<Rightarrow> jsstring" where
  "hexPair b = [hexDigit (unat b div 16), hexDigit (unat b mod 16)]"

subsection \<open>A well-formed frequency map in storage\<close>

definition isCount :: "json \<Rightarrow> bool" where
  "isCount v = (case v of JNumber lit \<Rightarrow> lit \<noteq> [] \<and> (\<forall>c \<in> set lit. isDigit c) | _ \<Rightarrow> False)"

text \<open>
  The text is the JSON encoding of a map from single-character strings to integer counts.
\<close>

definition validFrequencyJson :: "jsstring \<Rightarrow> bool" where
  "validFrequencyJson raw =
     (case JSON_parse raw of
        Inr (JObject ms) \<Rightarrow> (\<forall>(k, v) \<in> set ms. length (Array_from k) = 1 \<and> isCount v)
      | _ \<Rightarrow> False)"

section \<open>Properties\<close>

subsection \<open>The parser as a sequence of assignments\<close>

lemma run_Nil: "runAssignments [] st = st"
  by (simp add: runAssignments_def)

lemma run_single: "runAssignments [a] st = applyAssignment a st"
  by (simp add: runAssignments_def)

lemma run_snoc: "runAssignments (as @ [a]) st = applyAssignment a (runAssignments as st)"
  by (simp add: runAssignments_def)

lemma runAssignments_append:
  "runAssignments (as @ bs) st = runAssignments bs (runAssignments as st)"
  by (simp add: runAssignments_def)

lemma rule_single_word_run:
  "rule_single_word lower st =
   runAssignments (if includes_js lower (js ''single word'') then [AWordCount 1] else []) st"
  by (simp add: rule_single_word_def run_Nil run_single)

lemma rule_palindrome_run:
  "rule_palindrome lower st =
   runAssignments
     (if includes_js lower (js ''palindromic'') \<or> includes_js lower (js ''palindrome'')
      then [AIsPalindrome True] else []) st"
  by (simp add: rule_palindrome_def run_Nil run_single)

lemma rule_longer_than_run:
  "rule_longer_than lower st =
   runAssignments
     (case rx_exec longerThanRx lower of
        Some (Some ds) \<Rightarrow> [AMinLength (plusOne (Number ds))]
      | _ \<Rightarrow> []) st"
  by (simp add: rule_longer_than_def run_Nil run_single split: option.splits)

lemma rule_first_vowel_run:
  "rule_first_vowel lower st =
   runAssignments
     (if includes_js lower (js ''first vowel'') then [AContainsCharacter (js ''a'')] else []) st"
  by (simp add: rule_first_vowel_def run_Nil run_single)

lemma rule_contains_letter_run:
  "rule_contains_letter lower st =
   runAssignments
     (case rx_exec containsLetterRx lower of
        Some (Some x) \<Rightarrow> [AContainsCharacter x]
      | _ \<Rightarrow> []) st"
  by (simp add: rule_contains_letter_def run_Nil run_single split: option.splits)

lemma rule_contains_character_run:
  "rule_contains_character lower st =
   runAssignments
     (case rx_exec containsCharacterRx lower of
        Some (Some x) \<Rightarrow> [AContainsCharacter x]
      | _ \<Rightarrow> []) st"
  by (simp add: rule_contains_character_def run_Nil run_single split: option.splits)

lemma accumulate_run: "accumulate lower = runAssignments (recognized lower) initial_state"
  unfolding accumulate_def recognized_def runAssignments_append
    rule_single_word_run rule_palindrome_run rule_longer_than_run rule_first_vowel_run
    rule_contains_letter_run rule_contains_character_run
  by (rule refl)

lemma firstOf_snoc:
  "firstOf p (as @ [a]) = (case firstOf p as of Some v \<Rightarrow> Some v | None \<Rightarrow> p a)"
  by (induction as) (auto split: option.splits)

lemma firstOf_append:
  "firstOf p (as @ bs) = (case firstOf p as of Some v \<Rightarrow> Some v | None \<Rightarrow> firstOf p bs)"
  by (induction as) (auto split: option.splits)

lemma firstOf_mem: "firstOf p as = Some v \<Longrightarrow> \<exists>a \<in> set as. p a = Some v"
  by (induction as) (auto split: option.splits)

lemma firstOf_None: "firstOf p as = None \<Longrightarrow> a \<in> set as \<Longrightarrow> p a = None"
  by (induction as) (auto split: option.splits)

lemmas set_defs = set_word_count_def set_is_palindrome_def set_min_length_def
  set_contains_character_def setFilter_def

lemma apply_filters:
  "filters st = filtersOf as \<Longrightarrow> filters (applyAssignment a st) = filtersOf (as @ [a])"
  by (cases a) (auto simp: set_defs filtersOf_def firstOf_snoc split: option.splits)

lemma apply_conflicts:
  "filters st = filtersOf as \<Longrightarrow>
   (conflicts (applyAssignment a st) \<noteq> []) = (conflicts st \<noteq> [] \<or> stepConflict a as)"
  by (cases a) (auto simp: set_defs filtersOf_def stepConflict_def)

lemma apply_parsed:
  "filters st = filtersOf as \<Longrightarrow> parsed st = (as \<noteq> []) \<Longrightarrow> parsed (applyAssignment a st)"
  by (cases a; cases as) (auto simp: set_defs filtersOf_def split: option.splits)

lemma run_filters: "filters (runAssignments as initial_state) = filtersOf as"
proof (induction as rule: rev_induct)
  case Nil
  show ?case by (simp add: runAssignments_def initial_state_def filtersOf_def noFilters_def)
next
  case (snoc a as)
  then show ?case by (simp add: run_snoc apply_filters)
qed

lemma run_parsed: "parsed (runAssignments as initial_state) = (as \<noteq> [])"
proof (induction as rule: rev_induct)
  case Nil
  show ?case by (simp add: runAssignments_def initial_state_def)
next
  case (snoc a as)
  then show ?case using apply_parsed [OF run_filters] by (simp add: run_snoc)
qed

lemma sameField_sym: "sameField x y = sameField y x"
  by (cases x; cases y) auto

lemma conflicting_snoc:
  "conflicting (as @ [a]) = (conflicting as \<or> (\<exists>b \<in> set as. sameField a b \<and> a \<noteq> b))"
  unfolding conflicting_def using sameField_sym by auto

lemma wordCountOf_Some: "wordCountOf b = Some n \<longleftrightarrow> b = AWordCount n"
  by (cases b) auto

lemma isPalindromeOf_Some: "isPalindromeOf b = Some n \<longleftrightarrow> b = AIsPalindrome n"
  by (cases b) auto

lemma minLengthOf_Some: "minLengthOf b = Some n \<longleftrightarrow> b = AMinLength n"
  by (cases b) auto

lemma containsCharacterOf_Some: "containsCharacterOf b = Some n \<longleftrightarrow> b = AContainsCharacter n"
  by (cases b) auto

lemma firstOf_conflict:
  assumes inj: "\<And>b v. p b = Some v \<longleftrightarrow> b = C v"
    and same: "\<And>v w. sameField (C v) (C w)"
    and other: "\<And>v b. sameField (C v) b \<Longrightarrow> \<exists>w. b = C w"
    and nc: "\<not> conflicting as"
  shows "(firstOf p as \<noteq> None \<and> firstOf p as \<noteq> Some n) =
         (\<exists>b \<in> set as. sameField (C n) b \<and> C n \<noteq> b)"
proof
  assume "firstOf p as \<noteq> None \<and> firstOf p as \<noteq> Some n"
  then obtain m where m: "firstOf p as = Some m" "m \<noteq> n" by auto
  from firstOf_mem [OF m(1)] inj have "C m \<in> set as" by auto
  moreover have "C n \<noteq> C m" using m(2) inj by (metis option.inject)
  ultimately show "\<exists>b \<in> set as. sameField (C n) b \<and> C n \<noteq> b" using same by blast
next
  assume "\<exists>b \<in> set as. sameField (C n) b \<and> C n \<noteq> b"
  then obtain b where b: "b \<in> set as" "sameField (C n) b" "C n \<noteq> b" by blast
  from other [OF b(2)] obtain w where w: "b = C w" by blast
  have pw: "p b = Some w" using inj w by simp
  have "firstOf p as \<noteq> None" using firstOf_None [of p as b] b(1) pw by auto
  then obtain m where m: "firstOf p as = Some m" by auto
  from firstOf_mem [OF m] inj have cm: "C m \<in> set as" by auto
  have "m \<noteq> n"
  proof
    assume "m = n"
    then have "C n \<in> set as" using cm by simp
    then have "conflicting as" unfolding conflicting_def using b by blast
    then show False using nc by simp
  qed
  then show "firstOf p as \<noteq> None \<and> firstOf p as \<noteq> Some n" using m by simp
qed

lemma stepConflict_iff:
  assumes "\<not> conflicting as"
  shows "stepConflict a as = (\<exists>b \<in> set as. sameField a b \<and> a \<noteq> b)"
proof (cases a)
  case (AWordCount n)
  have "\<And>v b. sameField (AWordCount v) b \<Longrightarrow> \<exists>w. b = AWordCount w"
    subgoal for v b by (cases b) auto
    done
  from firstOf_conflict [of wordCountOf AWordCount as n, OF wordCountOf_Some _ this assms]
  show ?thesis by (simp add: AWordCount stepConflict_def)
next
  case (AIsPalindrome n)
  have "\<And>v b. sameField (AIsPalindrome v) b \<Longrightarrow> \<exists>w. b = AIsPalindrome w"
    subgoal for v b by (cases b) auto
    done
  from firstOf_conflict [of isPalindromeOf AIsPalindrome as n, OF isPalindromeOf_Some _ this assms]
  show ?thesis by (simp add: AIsPalindrome stepConflict_def)
next
  case (AMinLength n)
  have "\<And>v b. sameField (AMinLength v) b \<Longrightarrow> \<exists>w. b = AMinLength w"
    subgoal for v b by (cases b) auto
    done
  from firstOf_conflict [of minLengthOf AMinLength as n, OF minLengthOf_Some _ this assms]
  show ?thesis by (simp add: AMinLength stepConflict_def)
next
  case (AContainsCharacter n)
  have "\<And>v b. sameField (AContainsCharacter v) b \<Longrightarrow> \<exists>w. b = AContainsCharacter w"
    subgoal for v b by (cases b) auto
    done
  from firstOf_conflict [of containsCharacterOf AContainsCharacter as n,
      OF containsCharacterOf_Some _ this assms]
  show ?thesis by (simp add: AContainsCharacter stepConflict_def)
qed

lemma run_conflicts:
  "(conflicts (runAssignments as initial_state) \<noteq> []) = conflicting as"
proof (induction as rule: rev_induct)
  case Nil
  show ?case by (simp add: runAssignments_def initial_state_def conflicting_def)
next
  case (snoc a as)
  show ?case
    using snoc.IH stepConflict_iff [of as a] apply_conflicts [OF run_filters, of a as]
    by (auto simp: run_snoc conflicting_snoc)
qed

lemma filtersOf_max_length: "max_length (filtersOf as) = None"
  by (simp add: filtersOf_def)

lemma filtersOf_not_inverted: "\<not> lengthsInverted (filtersOf as)"
  by (simp add: lengthsInverted_def filtersOf_def split: option.splits)

lemma finish_accumulate:
  "finish (accumulate lower) =
     (if recognized lower = [] then Unparsed unparsedMessage
      else if conflicting (recognized lower) then Conflict conflictMessage
      else Success (filtersOf (recognized lower)))"
proof -
  let ?st = "runAssignments (recognized lower) initial_state"
  have c: "(conflicts ?st \<noteq> []) = conflicting (recognized lower)" by (rule run_conflicts)
  have p: "parsed ?st = (recognized lower \<noteq> [])" by (rule run_parsed)
  have f: "filters ?st = filtersOf (recognized lower)" by (rule run_filters)
  have e: "\<not> conflicting []" by (simp add: conflicting_def)
  show ?thesis
    unfolding accumulate_run finish_def
    using c p f e filtersOf_not_inverted [of "recognized lower"] by auto
qed

lemma parse_cases:
  "parseNaturalLanguageQuery U query =
     (if trim query = [] then Unparsed unparsedMessage
      else if recognized (toLowerCase U (trim query)) = [] then Unparsed unparsedMessage
      else if conflicting (recognized (toLowerCase U (trim query))) then Conflict conflictMessage
      else Success (filtersOf (recognized (toLowerCase U (trim query)))))"
  by (simp add: parseNaturalLanguageQuery_def finish_accumulate)

subsection \<open>ASCII text\<close>

lemma asciiFaithful_asciiUnicode: "asciiFaithful asciiUnicode"
  by (simp add: asciiFaithful_def asciiUnicode_def)

lemma isAscii_js: "isAscii (js s) = (\<forall>c \<in> set s. (of_nat (of_char c) :: 16 word) < 0x80)"
  by (simp add: isAscii_def js_def)

lemma parse_ascii:
  assumes "asciiFaithful U" "isAscii (trim query)"
  shows "parseNaturalLanguageQuery U query = parseNaturalLanguageQuery asciiUnicode query"
proof -
  have "toLowerCase U (trim query) = map asciiLower (trim query)"
    using assms by (simp add: asciiFaithful_def)
  then show ?thesis
    by (simp add: parseNaturalLanguageQuery_def asciiUnicode_def Let_def)
qed

lemmas eval_defs = js_def trim_def isWhiteSpace_def isDigit_def isLowerAZ_def isUpperAZ_def
  asciiLower_def asciiUnicode_def isAscii_def

lemmas rx_defs = longerThanRx_def containsLetterRx_def containsCharacterRx_def

lemma bit_length_small: "n < 2 ^ k \<Longrightarrow> bit_length n \<le> k"
proof (induction k arbitrary: n)
  case 0
  then show ?case by (simp add: bit_length.simps)
next
  case (Suc k)
  show ?case
  proof (cases "n = 0")
    case True
    then show ?thesis by (simp add: bit_length.simps)
  next
    case False
    have "n div 2 < 2 ^ k" using Suc.prems by simp
    from Suc.IH [OF this] False show ?thesis by (subst bit_length.simps) simp
  qed
qed

lemma toNumber_exact: "n < 2 ^ 53 \<Longrightarrow> toNumber n = enat n"
  using bit_length_small [of n 53] by (simp add: toNumber_def Let_def)

lemma bit_length_pow2: "bit_length (2 ^ k) = Suc k"
  by (induction k) (simp_all add: bit_length.simps)

lemma toNumber_2_53: "toNumber (2 ^ 53) = enat (2 ^ 53)"
proof -
  have b: "bit_length 9007199254740992 = 54"
    using bit_length_pow2 [of 53] by simp
  show ?thesis by (simp add: toNumber_def Let_def b)
qed

lemma plusOne_Number: 
  assumes "digitsValue ds < 2 ^ 53"
  shows "plusOne (Number ds) = enat (digitsValue ds + 1)"
proof (cases "digitsValue ds + 1 < 2 ^ 53")
  case True
  then show ?thesis using assms by (simp add: plusOne_def Number_def toNumber_exact)
next
  case False
  then have "digitsValue ds + 1 = 2 ^ 53" using assms by simp
  then show ?thesis using assms toNumber_2_53 by (simp add: plusOne_def Number_def toNumber_exact)
qed

lemma ex_single_word_palindromic:
  "parseNaturalLanguageQuery asciiUnicode (js ''single word palindromic strings'') =
   Success (noFilters\<lparr>word_count := Some 1, is_palindrome := Some True\<rparr>)"
  by (simp add: parse_cases recognized_def eval_defs rx_defs conflicting_def filtersOf_def
      noFilters_def)

lemma ex_longer_than_10:
  "parseNaturalLanguageQuery asciiUnicode (js ''strings longer than 10'') =
   Success (noFilters\<lparr>min_length := Some 11\<rparr>)"
  by (simp add: parse_cases recognized_def eval_defs rx_defs conflicting_def filtersOf_def
      noFilters_def Number_def plusOne_def toNumber_def digitsValue_def bit_length.simps
      numeral_eq_enat)

lemma ex_unparsed:
  "parseNaturalLanguageQuery asciiUnicode (js ''asdkjasd'') = Unparsed unparsedMessage"
  by (simp add: parse_cases recognized_def eval_defs rx_defs)

lemma ex_blank:
  "parseNaturalLanguageQuery asciiUnicode (js ''   '') = Unparsed unparsedMessage"
  by (simp add: parse_cases eval_defs)

lemma ex_conflict:
  "parseNaturalLanguageQuery asciiUnicode (js ''first vowel containing the letter z'') =
   Conflict conflictMessage"
  by (simp add: parse_cases recognized_def eval_defs rx_defs conflicting_def)

lemma ex_same_value:
  "parseNaturalLanguageQuery asciiUnicode (js ''first vowel containing the letter a'') =
   Success (noFilters\<lparr>contains_character := Some (js ''a'')\<rparr>)"
  by (simp add: parse_cases recognized_def eval_defs rx_defs conflicting_def filtersOf_def
      noFilters_def)

lemma ex_big:
  "parseNaturalLanguageQuery asciiUnicode (js ''longer than 9007199254740992'') =
   Success (noFilters\<lparr>min_length := Some (enat 9007199254740992)\<rparr>)"
  by (simp add: parse_cases recognized_def eval_defs rx_defs conflicting_def filtersOf_def
      noFilters_def Number_def plusOne_def toNumber_def digitsValue_def bit_length.simps)

subsection \<open>Capture groups\<close>

lemma rx_run_Group_cap: "\<forall>x \<in> set (rx_run (Group r) st). snd x \<noteq> None"
  by (cases st) auto

lemma rx_run_Seq_cap:
  assumes "\<And>st. \<forall>x \<in> set (rx_run b st). snd x \<noteq> None"
  shows "\<forall>x \<in> set (rx_run (Seq a b) st). snd x \<noteq> None"
proof
  fix x
  assume "x \<in> set (rx_run (Seq a b) st)"
  then obtain y where "y \<in> set (rx_run a st)" "x \<in> set (rx_run b y)" by auto
  then show "snd x \<noteq> None" using assms [of y] by blast
qed

lemma rx_exec_cap:
  assumes "\<And>st. \<forall>x \<in> set (rx_run r st). snd x \<noteq> None"
  shows "rx_exec r s \<noteq> Some None"
proof (induction s)
  case Nil
  show ?case
  proof (cases "rx_run r ([], None)")
    case Nil
    then show ?thesis by simp
  next
    case (Cons x xs)
    then have "snd x \<noteq> None" using assms [of "([], None)"] by simp
    then show ?thesis using Cons by (cases x) auto
  qed
next
  case (Cons c cs)
  show ?case
  proof (cases "rx_run r (c # cs, None)")
    case Nil
    then show ?thesis using Cons.IH by simp
  next
    case (Cons x xs)
    then have "snd x \<noteq> None" using assms [of "(c # cs, None)"] by simp
    then show ?thesis using Cons by (cases x) auto
  qed
qed

lemma longerThan_cap: "rx_exec longerThanRx s \<noteq> Some None"
  unfolding longerThanRx_def seqs.simps
  by (intro rx_exec_cap rx_run_Seq_cap rx_run_Group_cap)

lemma containsLetter_cap: "rx_exec containsLetterRx s \<noteq> Some None"
  unfolding containsLetterRx_def seqs.simps
  by (intro rx_exec_cap rx_run_Seq_cap rx_run_Group_cap)

lemma containsCharacter_cap: "rx_exec containsCharacterRx s \<noteq> Some None"
  unfolding containsCharacterRx_def seqs.simps
  by (intro rx_exec_cap rx_run_Seq_cap rx_run_Group_cap)

subsection \<open>The fields of the accumulated filters\<close>

lemma seg_contains_other:
  "firstOf wordCountOf (case e of Some (Some x) \<Rightarrow> [AContainsCharacter x] | _ \<Rightarrow> []) = None"
  "firstOf isPalindromeOf (case e of Some (Some x) \<Rightarrow> [AContainsCharacter x] | _ \<Rightarrow> []) = None"
  "firstOf minLengthOf (case e of Some (Some x) \<Rightarrow> [AContainsCharacter x] | _ \<Rightarrow> []) = None"
  by (simp_all split: option.splits)

lemma seg_contains_self:
  "firstOf containsCharacterOf (case e of Some (Some x) \<Rightarrow> [AContainsCharacter x] | _ \<Rightarrow> []) =
   (case e of Some (Some x) \<Rightarrow> Some x | _ \<Rightarrow> None)"
  by (simp split: option.splits)

lemma seg_longer_other:
  "firstOf wordCountOf (case e of Some (Some x) \<Rightarrow> [AMinLength (g x)] | _ \<Rightarrow> []) = None"
  "firstOf isPalindromeOf (case e of Some (Some x) \<Rightarrow> [AMinLength (g x)] | _ \<Rightarrow> []) = None"
  "firstOf containsCharacterOf (case e of Some (Some x) \<Rightarrow> [AMinLength (g x)] | _ \<Rightarrow> []) = None"
  by (simp_all split: option.splits)

lemma seg_longer_self:
  "firstOf minLengthOf (case e of Some (Some x) \<Rightarrow> [AMinLength (g x)] | _ \<Rightarrow> []) =
   (case e of Some (Some x) \<Rightarrow> Some (g x) | _ \<Rightarrow> None)"
  by (simp split: option.splits)

lemma seg_if_other:
  "firstOf isPalindromeOf (if c then [AWordCount n] else []) = None"
  "firstOf minLengthOf (if c then [AWordCount n] else []) = None"
  "firstOf containsCharacterOf (if c then [AWordCount n] else []) = None"
  "firstOf wordCountOf (if c then [AIsPalindrome b] else []) = None"
  "firstOf minLengthOf (if c then [AIsPalindrome b] else []) = None"
  "firstOf containsCharacterOf (if c then [AIsPalindrome b] else []) = None"
  "firstOf wordCountOf (if c then [AContainsCharacter x] else []) = None"
  "firstOf isPalindromeOf (if c then [AContainsCharacter x] else []) = None"
  "firstOf minLengthOf (if c then [AContainsCharacter x] else []) = None"
  by simp_all

lemma seg_if_self:
  "firstOf wordCountOf (if c then [AWordCount n] else []) = (if c then Some n else None)"
  "firstOf isPalindromeOf (if c then [AIsPalindrome b] else []) = (if c then Some b else None)"
  "firstOf containsCharacterOf (if c then [AContainsCharacter x] else []) =
     (if c then Some x else None)"
  by simp_all

lemma firstOf_append_None1: "firstOf p as = None \<Longrightarrow> firstOf p (as @ bs) = firstOf p bs"
  by (simp add: firstOf_append)

lemma firstOf_append_None2: "firstOf p bs = None \<Longrightarrow> firstOf p (as @ bs) = firstOf p as"
  by (simp add: firstOf_append split: option.splits)

lemma firstOf_Nil_right: "firstOf p (as @ []) = firstOf p as"
  by simp

lemmas seg_simps = seg_contains_other seg_contains_self seg_longer_other seg_longer_self
  seg_if_other seg_if_self

lemma recognized_word_count:
  "firstOf wordCountOf (recognized lower) =
     (if includes_js lower (js ''single word'') then Some 1 else None)"
  unfolding recognized_def
  by (simp only: firstOf_append_None2 seg_simps)

lemma recognized_is_palindrome:
  "firstOf isPalindromeOf (recognized lower) =
     (if includes_js lower (js ''palindromic'') \<or> includes_js lower (js ''palindrome'')
      then Some True else None)"
  unfolding recognized_def
  by (simp only: firstOf_append_None1 firstOf_append_None2 seg_simps)

lemma recognized_min_length:
  "firstOf minLengthOf (recognized lower) =
     (case rx_exec longerThanRx lower of
        Some (Some ds) \<Rightarrow> Some (plusOne (Number ds))
      | _ \<Rightarrow> None)"
  unfolding recognized_def
  by (simp only: firstOf_append_None1 firstOf_append_None2 seg_simps)

lemma recognized_contains_character:
  "firstOf containsCharacterOf (recognized lower) =
     firstOf containsCharacterOf
       ((if includes_js lower (js ''first vowel'') then [AContainsCharacter (js ''a'')] else []) @
        (case rx_exec containsLetterRx lower of
           Some (Some x) \<Rightarrow> [AContainsCharacter x]
         | _ \<Rightarrow> []) @
        (case rx_exec containsCharacterRx lower of
           Some (Some x) \<Rightarrow> [AContainsCharacter x]
         | _ \<Rightarrow> []))"
  unfolding recognized_def
  by (simp only: firstOf_append_None1 firstOf_append_None2 seg_simps)

lemma recognized_contains_none:
  assumes "\<not> includes_js lower (js ''first vowel'')"
    "rx_exec containsLetterRx lower = None" "rx_exec containsCharacterRx lower = None"
  shows "firstOf containsCharacterOf (recognized lower) = None"
  unfolding recognized_contains_character using assms by simp

lemma recognized_letter_mem:
  "rx_exec containsLetterRx lower = Some (Some x) \<Longrightarrow> AContainsCharacter x \<in> set (recognized lower)"
  by (simp add: recognized_def)

lemma recognized_character_mem:
  "rx_exec containsCharacterRx lower = Some (Some x) \<Longrightarrow>
   AContainsCharacter x \<in> set (recognized lower)"
  by (simp add: recognized_def)

lemma recognized_vowel_mem:
  "includes_js lower (js ''first vowel'') \<Longrightarrow> AContainsCharacter (js ''a'') \<in> set (recognized lower)"
  by (simp add: recognized_def)

lemma unconflicting_contains:
  assumes "\<not> conflicting as" "AContainsCharacter x \<in> set as"
  shows "firstOf containsCharacterOf as = Some x"
proof -
  have "firstOf containsCharacterOf as \<noteq> None"
    using firstOf_None [of containsCharacterOf as "AContainsCharacter x"] assms(2) by auto
  then obtain y where y: "firstOf containsCharacterOf as = Some y" by auto
  from firstOf_mem [OF y] have "AContainsCharacter y \<in> set as"
    by (auto simp: containsCharacterOf_Some)
  then have "x = y" using assms unfolding conflicting_def by fastforce
  then show ?thesis using y by simp
qed

lemma parse_Success:
  assumes "parseNaturalLanguageQuery U query = Success f"
  shows "f = filtersOf (recognized (toLowerCase U (trim query)))"
    and "\<not> conflicting (recognized (toLowerCase U (trim query)))"
  using assms by (auto simp: parse_cases split: if_splits)

lemma isAscii_examples:
  "isAscii (trim (js ''single word palindromic strings''))"
  "isAscii (trim (js ''strings longer than 10''))"
  "isAscii (trim (js ''asdkjasd''))"
  "isAscii (trim (js ''first vowel containing the letter z''))"
  "isAscii (trim (js ''first vowel containing the letter a''))"
  by (simp_all add: eval_defs)

lemma trim_blank: "trim (js ''   '') = []"
  by (simp add: eval_defs)

lemma filtersOf_is_palindrome:
  "is_palindrome (filtersOf (recognized lower)) = None \<or>
   is_palindrome (filtersOf (recognized lower)) = Some True"
  by (simp add: filtersOf_def recognized_is_palindrome)

text \<open>
  C10. Whatever the query, the filters that the parser accumulates have no
  \<open>max_length\<close>, and an \<open>is_palindrome\<close> that is present is true; so the parser's test
  for \<open>min_length > max_length\<close> is never true, and the filters of a \<open>Success\<close> satisfy
  the invariant on the two lengths.
\<close>

theorem parser_never_sets_max_length:
  "max_length (filters (accumulate lower)) = None \<and>
   is_palindrome (filters (accumulate lower)) \<noteq> Some False \<and>
   \<not> lengthsInverted (filters (accumulate lower)) \<and>
   (parseNaturalLanguageQuery U query = Success f \<longrightarrow>
      max_length f = None \<and> is_palindrome f \<noteq> Some False \<and> \<not> lengthsInverted f)"
proof -
  have a: "filters (accumulate lower) = filtersOf (recognized lower)"
    by (simp add: accumulate_run run_filters)
  have p: "\<And>l. is_palindrome (filtersOf (recognized l)) \<noteq> Some False"
    subgoal for l using filtersOf_is_palindrome [of l] by auto
    done
  have s: "parseNaturalLanguageQuery U query = Success f \<Longrightarrow>
      f = filtersOf (recognized (toLowerCase U (trim query)))"
    by (rule parse_Success)
  show ?thesis
    using a p s filtersOf_max_length filtersOf_not_inverted by auto
qed

theorem parser_never_sets_max_length_witness:
  "parseNaturalLanguageQuery asciiUnicode (js ''single word palindromic strings'') =
     Success (noFilters\<lparr>word_count := Some 1, is_palindrome := Some True\<rparr>) \<and>
   max_length (noFilters\<lparr>word_count := Some 1, is_palindrome := Some True\<rparr>) = None \<and>
   is_palindrome (noFilters\<lparr>word_count := Some 1, is_palindrome := Some True\<rparr>) \<noteq> Some False \<and>
   \<not> lengthsInverted (noFilters\<lparr>word_count := Some 1, is_palindrome := Some True\<rparr>)"
  using parser_never_sets_max_length
    [of "[]" asciiUnicode "js ''single word palindromic strings''"
        "noFilters\<lparr>word_count := Some 1, is_palindrome := Some True\<rparr>"]
    ex_single_word_palindromic
  by simp

text \<open>
  C5. The parser returns \<open>Unparsed\<close> for a blank query and for a query in which no phrase
  is recognized, \<open>Conflict\<close> when two recognized phrases assign different values to one
  field (or the two lengths are inverted), and otherwise \<open>Success\<close> with the accumulated
  filters; two phrases that assign the same value to a field do not conflict.
\<close>

theorem parse_outcomes:
  "parseNaturalLanguageQuery U query =
     (if trim query = [] then Unparsed unparsedMessage
      else let as = recognized (toLowerCase U (trim query))
           in if as = [] then Unparsed unparsedMessage
              else if conflicting as \<or> lengthsInverted (filtersOf as)
              then Conflict conflictMessage
              else Success (filtersOf as)) \<and>
   (asciiFaithful U \<longrightarrow>
      parseNaturalLanguageQuery U (js ''   '') = Unparsed unparsedMessage \<and>
      parseNaturalLanguageQuery U (js ''asdkjasd'') = Unparsed unparsedMessage \<and>
      parseNaturalLanguageQuery U (js ''first vowel containing the letter z'') =
        Conflict conflictMessage \<and>
      parseNaturalLanguageQuery U (js ''first vowel containing the letter a'') =
        Success (noFilters\<lparr>contains_character := Some (js ''a'')\<rparr>))"
proof -
  have 1: "parseNaturalLanguageQuery U query =
     (if trim query = [] then Unparsed unparsedMessage
      else let as = recognized (toLowerCase U (trim query))
           in if as = [] then Unparsed unparsedMessage
              else if conflicting as \<or> lengthsInverted (filtersOf as)
              then Conflict conflictMessage
              else Success (filtersOf as))"
    by (simp add: parse_cases Let_def filtersOf_not_inverted)
  have 2: "parseNaturalLanguageQuery U (js ''   '') = Unparsed unparsedMessage"
    by (simp add: parseNaturalLanguageQuery_def trim_blank)
  have 3: "asciiFaithful U \<Longrightarrow>
      parseNaturalLanguageQuery U (js ''asdkjasd'') = Unparsed unparsedMessage \<and>
      parseNaturalLanguageQuery U (js ''first vowel containing the letter z'') =
        Conflict conflictMessage \<and>
      parseNaturalLanguageQuery U (js ''first vowel containing the letter a'') =
        Success (noFilters\<lparr>contains_character := Some (js ''a'')\<rparr>)"
    using ex_unparsed ex_conflict ex_same_value
    by (simp add: parse_ascii isAscii_examples)
  show ?thesis using 1 2 3 by blast
qed

theorem parse_outcomes_witness:
  "asciiFaithful asciiUnicode \<and>
   parseNaturalLanguageQuery asciiUnicode (js ''first vowel containing the letter z'') =
     Conflict conflictMessage \<and>
   parseNaturalLanguageQuery asciiUnicode (js ''first vowel containing the letter a'') =
     Success (noFilters\<lparr>contains_character := Some (js ''a'')\<rparr>) \<and>
   parseNaturalLanguageQuery asciiUnicode (js ''asdkjasd'') = Unparsed unparsedMessage"
  using parse_outcomes [of asciiUnicode "js ''asdkjasd''"] asciiFaithful_asciiUnicode
  by blast

text \<open>
  C6, amended. In a query that parses with success, "single word" sets
  \<open>word_count = 1\<close>, "palindrome" or "palindromic" sets \<open>is_palindrome = true\<close>,
  "longer than N" sets \<open>min_length = N + 1\<close> for every \<open>N\<close> below \<open>2 ^ 53\<close>,
  "first vowel" sets \<open>contains_character = a\<close>, and "contain(ing) [the] letter X" and
  "contain(ing) [the] character X" set \<open>contains_character = X\<close>; a field whose phrases
  are absent stays absent, and all recognized phrases apply together.
\<close>

theorem phrase_table:
  "(parseNaturalLanguageQuery U query = Success f \<longrightarrow>
      (let lower = toLowerCase U (trim query)
       in word_count f = (if includes_js lower (js ''single word'') then Some 1 else None) \<and>
          is_palindrome f =
            (if includes_js lower (js ''palindromic'') \<or> includes_js lower (js ''palindrome'')
             then Some True else None) \<and>
          (\<forall>ds. rx_exec longerThanRx lower = Some (Some ds) \<and> digitsValue ds < 2 ^ 53 \<longrightarrow>
                min_length f = Some (enat (digitsValue ds + 1))) \<and>
          (rx_exec longerThanRx lower = None \<longrightarrow> min_length f = None) \<and>
          (includes_js lower (js ''first vowel'') \<longrightarrow> contains_character f = Some (js ''a'')) \<and>
          (\<forall>x. rx_exec containsLetterRx lower = Some (Some x) \<longrightarrow>
                contains_character f = Some x) \<and>
          (\<forall>x. rx_exec containsCharacterRx lower = Some (Some x) \<longrightarrow>
                contains_character f = Some x) \<and>
          (\<not> includes_js lower (js ''first vowel'') \<and> rx_exec containsLetterRx lower = None \<and>
           rx_exec containsCharacterRx lower = None \<longrightarrow> contains_character f = None) \<and>
          max_length f = None)) \<and>
   (asciiFaithful U \<longrightarrow>
      parseNaturalLanguageQuery U (js ''single word palindromic strings'') =
        Success (noFilters\<lparr>word_count := Some 1, is_palindrome := Some True\<rparr>) \<and>
      parseNaturalLanguageQuery U (js ''strings longer than 10'') =
        Success (noFilters\<lparr>min_length := Some 11\<rparr>))"
proof -
  have table: "word_count f = (if includes_js lower (js ''single word'') then Some 1 else None) \<and>
          is_palindrome f =
            (if includes_js lower (js ''palindromic'') \<or> includes_js lower (js ''palindrome'')
             then Some True else None) \<and>
          (\<forall>ds. rx_exec longerThanRx lower = Some (Some ds) \<and> digitsValue ds < 2 ^ 53 \<longrightarrow>
                min_length f = Some (enat (digitsValue ds + 1))) \<and>
          (rx_exec longerThanRx lower = None \<longrightarrow> min_length f = None) \<and>
          (includes_js lower (js ''first vowel'') \<longrightarrow> contains_character f = Some (js ''a'')) \<and>
          (\<forall>x. rx_exec containsLetterRx lower = Some (Some x) \<longrightarrow>
                contains_character f = Some x) \<and>
          (\<forall>x. rx_exec containsCharacterRx lower = Some (Some x) \<longrightarrow>
                contains_character f = Some x) \<and>
          (\<not> includes_js lower (js ''first vowel'') \<and> rx_exec containsLetterRx lower = None \<and>
           rx_exec containsCharacterRx lower = None \<longrightarrow> contains_character f = None) \<and>
          max_length f = None"
    if ok: "parseNaturalLanguageQuery U query = Success f"
      and lower: "lower = toLowerCase U (trim query)" for lower
  proof -
    from parse_Success [OF ok] lower
    have f: "f = filtersOf (recognized lower)" and nc: "\<not> conflicting (recognized lower)"
      by simp_all
    have w: "word_count f = (if includes_js lower (js ''single word'') then Some 1 else None)"
      by (simp add: f filtersOf_def recognized_word_count)
    have p: "is_palindrome f =
            (if includes_js lower (js ''palindromic'') \<or> includes_js lower (js ''palindrome'')
             then Some True else None)"
      by (simp add: f filtersOf_def recognized_is_palindrome)
    have m: "min_length f = (case rx_exec longerThanRx lower of
        Some (Some ds) \<Rightarrow> Some (plusOne (Number ds)) | _ \<Rightarrow> None)"
      by (simp add: f filtersOf_def recognized_min_length)
    have m1: "\<forall>ds. rx_exec longerThanRx lower = Some (Some ds) \<and> digitsValue ds < 2 ^ 53 \<longrightarrow>
                min_length f = Some (enat (digitsValue ds + 1))"
      using m by (auto simp: plusOne_Number)
    have m2: "rx_exec longerThanRx lower = None \<longrightarrow> min_length f = None"
      using m by simp
    have c: "contains_character f = firstOf containsCharacterOf (recognized lower)"
      by (simp add: f filtersOf_def)
    have c1: "includes_js lower (js ''first vowel'') \<longrightarrow> contains_character f = Some (js ''a'')"
      using c unconflicting_contains [OF nc recognized_vowel_mem] by simp
    have c2: "\<forall>x. rx_exec containsLetterRx lower = Some (Some x) \<longrightarrow>
                contains_character f = Some x"
      using c unconflicting_contains [OF nc recognized_letter_mem] by simp
    have c3: "\<forall>x. rx_exec containsCharacterRx lower = Some (Some x) \<longrightarrow>
                contains_character f = Some x"
      using c unconflicting_contains [OF nc recognized_character_mem] by simp
    have c4: "\<not> includes_js lower (js ''first vowel'') \<and> rx_exec containsLetterRx lower = None \<and>
           rx_exec containsCharacterRx lower = None \<longrightarrow> contains_character f = None"
      using c recognized_contains_none by simp
    have x: "max_length f = None" by (simp add: f filtersOf_def)
    show ?thesis using w p m1 m2 c1 c2 c3 c4 x by blast
  qed
  have ex: "asciiFaithful U \<Longrightarrow>
      parseNaturalLanguageQuery U (js ''single word palindromic strings'') =
        Success (noFilters\<lparr>word_count := Some 1, is_palindrome := Some True\<rparr>) \<and>
      parseNaturalLanguageQuery U (js ''strings longer than 10'') =
        Success (noFilters\<lparr>min_length := Some 11\<rparr>)"
    using ex_single_word_palindromic ex_longer_than_10
    by (simp add: parse_ascii isAscii_examples)
  show ?thesis
    unfolding Let_def using table [OF _ refl] ex by blast
qed

theorem phrase_table_witness:
  "asciiFaithful asciiUnicode \<and>
   parseNaturalLanguageQuery asciiUnicode (js ''strings longer than 10'') =
     Success (noFilters\<lparr>min_length := Some 11\<rparr>) \<and>
   rx_exec longerThanRx (toLowerCase asciiUnicode (trim (js ''strings longer than 10''))) =
     Some (Some (js ''10'')) \<and>
   digitsValue (js ''10'') < 2 ^ 53 \<and>
   min_length (noFilters\<lparr>min_length := Some 11\<rparr>) = Some (enat (digitsValue (js ''10'') + 1)) \<and>
   word_count (noFilters\<lparr>min_length := Some 11\<rparr>) = None"
proof -
  have r: "rx_exec longerThanRx (toLowerCase asciiUnicode (trim (js ''strings longer than 10''))) =
     Some (Some (js ''10''))"
    by (simp add: eval_defs rx_defs)
  have d: "digitsValue (js ''10'') = 10"
    by (simp add: digitsValue_def js_def)
  have i: "\<not> includes_js (toLowerCase asciiUnicode (trim (js ''strings longer than 10'')))
      (js ''single word'')"
    by (simp add: eval_defs)
  show ?thesis
    using phrase_table [of asciiUnicode "js ''strings longer than 10''"
        "noFilters\<lparr>min_length := Some 11\<rparr>"]
      asciiFaithful_asciiUnicode r d i
    by (simp add: Let_def numeral_eq_enat)
qed

text \<open>
  C6 as stated fails: in "longer than 9007199254740992" the number is \<open>2 ^ 53\<close>, and the
  sum of the doubles \<open>2 ^ 53\<close> and \<open>1\<close> is \<open>2 ^ 53\<close>: \<open>min_length\<close> is \<open>N\<close>, not \<open>N + 1\<close>.
\<close>

theorem phrase_table_counterexample:
  "rx_exec longerThanRx
     (toLowerCase asciiUnicode (trim (js ''longer than 9007199254740992''))) =
     Some (Some (js ''9007199254740992'')) \<and>
   digitsValue (js ''9007199254740992'') = 9007199254740992 \<and>
   parseNaturalLanguageQuery asciiUnicode (js ''longer than 9007199254740992'') =
     Success (noFilters\<lparr>min_length := Some (enat 9007199254740992)\<rparr>) \<and>
   min_length (noFilters\<lparr>min_length := Some (enat 9007199254740992)\<rparr>) \<noteq>
     Some (enat (9007199254740992 + 1))"
proof -
  have r: "rx_exec longerThanRx
     (toLowerCase asciiUnicode (trim (js ''longer than 9007199254740992''))) =
     Some (Some (js ''9007199254740992''))"
    by (simp add: eval_defs rx_defs)
  have d: "digitsValue (js ''9007199254740992'') = 9007199254740992"
    by (simp add: digitsValue_def js_def)
  show ?thesis using r d ex_big by (simp add: noFilters_def)
qed

lemma lengthsInverted_iff:
  "lengthsInverted f = (\<exists>lo hi. min_length f = Some lo \<and> max_length f = Some hi \<and> lo > hi)"
  by (auto simp: lengthsInverted_def split: option.splits)

text \<open>
  C7. Filters in which \<open>min_length\<close> and \<open>max_length\<close> are both present and
  \<open>min_length > max_length\<close> are rejected on both paths: the list route answers with the
  validation error, the parser decides \<open>Conflict\<close>, which its route answers with 422; a
  request that is answered with records had filters that respect the invariant. In
  particular the list route rejects \<open>min_length = 5, max_length = 3\<close>.
\<close>

theorem inverted_lengths_rejected:
  "(min_length f = Some lo \<and> max_length f = Some hi \<and> lo > hi \<longrightarrow>
      listStrings U db f = listStringsValidationError) \<and>
   (min_length (filters st) = Some lo \<and> max_length (filters st) = Some hi \<and> lo > hi \<longrightarrow>
      finish st = Conflict conflictMessage) \<and>
   (parseNaturalLanguageQuery U query = Conflict message \<longrightarrow>
      filterByNaturalLanguage U db query = Response 422 (ErrorBody message)) \<and>
   (listStrings U db f = Response 200 b \<longrightarrow> \<not> lengthsInverted f) \<and>
   (filterByNaturalLanguage U db query = Response 200 (InterpretedBody records n q g) \<longrightarrow>
      \<not> lengthsInverted g) \<and>
   listStrings U db (noFilters\<lparr>min_length := Some 5, max_length := Some 3\<rparr>) =
     listStringsValidationError"
proof -
  have 1: "min_length f = Some lo \<and> max_length f = Some hi \<and> lo > hi \<longrightarrow>
      listStrings U db f = listStringsValidationError"
    by (auto simp: listStrings_def listStringsValidationError_def lengthsInverted_iff)
  have 2: "min_length (filters st) = Some lo \<and> max_length (filters st) = Some hi \<and> lo > hi \<longrightarrow>
      finish st = Conflict conflictMessage"
    by (auto simp: finish_def lengthsInverted_iff)
  have 3: "parseNaturalLanguageQuery U query = Conflict message \<longrightarrow>
      filterByNaturalLanguage U db query = Response 422 (ErrorBody message)"
    by (simp add: filterByNaturalLanguage_def)
  have 4: "listStrings U db f = Response 200 b \<longrightarrow> \<not> lengthsInverted f"
    by (auto simp: listStrings_def)
  have 5: "filterByNaturalLanguage U db query = Response 200 (InterpretedBody records n q g) \<longrightarrow>
      \<not> lengthsInverted g"
  proof
    assume a: "filterByNaturalLanguage U db query = Response 200 (InterpretedBody records n q g)"
    then have "parseNaturalLanguageQuery U query = Success g"
      by (auto simp: filterByNaturalLanguage_def Let_def split: NaturalLanguageParseResult.splits)
    then have "g = filtersOf (recognized (toLowerCase U (trim query)))"
      by (rule parse_Success)
    then show "\<not> lengthsInverted g" by (simp add: filtersOf_not_inverted)
  qed
  have 6: "listStrings U db (noFilters\<lparr>min_length := Some 5, max_length := Some 3\<rparr>) =
     listStringsValidationError"
    by (simp add: listStrings_def listStringsValidationError_def lengthsInverted_def noFilters_def)
  show ?thesis using 1 2 3 4 5 6 by blast
qed

theorem inverted_lengths_rejected_witness:
  "min_length (noFilters\<lparr>min_length := Some 5, max_length := Some 3\<rparr>) = Some 5 \<and>
   max_length (noFilters\<lparr>min_length := Some 5, max_length := Some 3\<rparr>) = Some 3 \<and>
   (5 :: number) > 3 \<and>
   listStrings asciiUnicode [] (noFilters\<lparr>min_length := Some 5, max_length := Some 3\<rparr>) =
     listStringsValidationError \<and>
   finish \<lparr>filters = noFilters\<lparr>min_length := Some 5, max_length := Some 3\<rparr>,
           conflicts = [], parsed = True\<rparr> = Conflict conflictMessage \<and>
   parseNaturalLanguageQuery asciiUnicode (js ''first vowel containing the letter z'') =
     Conflict conflictMessage \<and>
   filterByNaturalLanguage asciiUnicode [] (js ''first vowel containing the letter z'') =
     Response 422 (ErrorBody conflictMessage)"
  using inverted_lengths_rejected
    [of "noFilters\<lparr>min_length := Some 5, max_length := Some 3\<rparr>" 5 3 asciiUnicode "[]"
        "\<lparr>filters = noFilters\<lparr>min_length := Some 5, max_length := Some 3\<rparr>,
           conflicts = [], parsed = True\<rparr>"
        "js ''first vowel containing the letter z''" conflictMessage]
    ex_conflict
  by (simp add: noFilters_def)

subsection \<open>The class of the palindrome test\<close>

lemma unat_of_nat_16: "n < 65536 \<Longrightarrow> unat (of_nat n :: 16 word) = n"
  by (simp add: unat_of_nat)

lemma alnumClass_set: "set alnumClass = {c. isLowerAZ c \<or> isDigit c}"
proof (rule set_eqI)
  fix c :: "16 word"
  have s: "set alnumClass = of_nat ` ({97 ..< 123} \<union> {48 ..< 58})"
    unfolding alnumClass_def by (simp only: set_map set_append set_upt)
  show "(c \<in> set alnumClass) = (c \<in> {c. isLowerAZ c \<or> isDigit c})"
  proof
    assume "c \<in> set alnumClass"
    then obtain n where n: "c = of_nat n" "n \<in> {97 ..< 123} \<union> {48 ..< 58}"
      unfolding s by blast
    then have "unat c = n" using unat_of_nat_16 [of n] by auto
    then show "c \<in> {c. isLowerAZ c \<or> isDigit c}"
      using n(2) by (auto simp: isLowerAZ_def isDigit_def word_le_nat_alt)
  next
    assume "c \<in> {c. isLowerAZ c \<or> isDigit c}"
    then have "unat c \<in> {97 ..< 123} \<union> {48 ..< 58}"
      by (auto simp: isLowerAZ_def isDigit_def word_le_nat_alt)
    then have "of_nat (unat c) \<in> (of_nat ` ({97 ..< 123} \<union> {48 ..< 58}) :: 16 word set)"
      by (rule imageI)
    then show "c \<in> set alnumClass" unfolding s by simp
  qed
qed

lemma canonicalize_ascii:
  assumes "asciiFaithful U" "ch < 0x80"
  shows "canonicalize U ch = asciiUpper ch"
proof -
  have "toUpperCase U [ch] = [asciiUpper ch]"
    using assms by (simp add: asciiFaithful_def isAscii_def)
  then show ?thesis using assms(2) by (simp add: canonicalize_def word_le_nat_alt word_less_nat_alt)
qed

lemma canonicalize_other:
  assumes "\<not> ch < 0x80"
  shows "\<not> canonicalize U ch < 0x80"
  using assms
  by (auto simp: canonicalize_def word_le_nat_alt word_less_nat_alt split: list.splits)

lemma asciiUpper_lower: "isLowerAZ a \<Longrightarrow> isUpperAZ (asciiUpper a) \<and> asciiUpper a < 0x80"
  by (auto simp: asciiUpper_def isLowerAZ_def isUpperAZ_def word_le_nat_alt word_less_nat_alt
      unat_sub)

lemma asciiUpper_upper: "isUpperAZ a \<Longrightarrow> asciiUpper (a + 0x20) = a \<and> isLowerAZ (a + 0x20)"
proof -
  assume a: "isUpperAZ a"
  then have u: "65 \<le> unat a" "unat a \<le> 90"
    by (auto simp: isUpperAZ_def word_le_nat_alt)
  then have s: "unat (a + 0x20) = unat a + 32"
    by (simp add: unat_word_ariths)
  then have l: "isLowerAZ (a + 0x20)"
    using u by (simp add: isLowerAZ_def word_le_nat_alt)
  then show ?thesis by (simp add: asciiUpper_def)
qed

lemma class_bounds:
  "isLowerAZ c \<Longrightarrow> c < 0x80" "isUpperAZ c \<Longrightarrow> c < 0x80" "isDigit c \<Longrightarrow> c < 0x80"
  "isLowerAZ c \<Longrightarrow> \<not> isUpperAZ c \<and> \<not> isDigit c"
  "isUpperAZ c \<Longrightarrow> \<not> isLowerAZ c \<and> \<not> isDigit c"
  "isDigit c \<Longrightarrow> \<not> isLowerAZ c \<and> \<not> isUpperAZ c"
  by (auto simp: isLowerAZ_def isUpperAZ_def isDigit_def word_le_nat_alt word_less_nat_alt)

lemma asciiUpper_class:
  assumes "isLowerAZ a \<or> isDigit a"
  shows "(isUpperAZ (asciiUpper a) \<or> isDigit (asciiUpper a)) \<and> asciiUpper a < 0x80"
proof (cases "isLowerAZ a")
  case True
  then show ?thesis using asciiUpper_lower [of a] by blast
next
  case False
  then have "isDigit a" using assms by blast
  moreover have "asciiUpper a = a" using False by (simp add: asciiUpper_def)
  ultimately show ?thesis using class_bounds(3) [of a] by simp
qed

lemma inClassIgnoreCase_alnum:
  assumes U: "asciiFaithful U" and c: "inClassIgnoreCase U ch"
  shows "isAsciiAlnum ch"
proof -
  from c obtain a where a: "isLowerAZ a \<or> isDigit a" "canonicalize U a = canonicalize U ch"
    unfolding inClassIgnoreCase_def alnumClass_set by blast
  have a80: "a < 0x80" using a(1) class_bounds(1) [of a] class_bounds(3) [of a] by blast
  have ca: "canonicalize U a = asciiUpper a" by (rule canonicalize_ascii [OF U a80])
  note ua = asciiUpper_class [OF a(1)]
  have ch80: "ch < 0x80"
  proof (rule ccontr)
    assume "\<not> ch < 0x80"
    from canonicalize_other [OF this, of U] have "\<not> asciiUpper a < 0x80"
      using a(2) ca by simp
    then show False using ua by blast
  qed
  have "canonicalize U ch = asciiUpper ch" by (rule canonicalize_ascii [OF U ch80])
  then have e: "asciiUpper ch = asciiUpper a" using a(2) ca by simp
  show "isAsciiAlnum ch"
  proof (cases "isLowerAZ ch")
    case True
    then show ?thesis by (simp add: isAsciiAlnum_def)
  next
    case False
    then have "asciiUpper ch = ch" by (simp add: asciiUpper_def)
    then have "isUpperAZ ch \<or> isDigit ch" using e ua by simp
    then show ?thesis unfolding isAsciiAlnum_def by blast
  qed
qed

lemma alnum_inClassIgnoreCase:
  assumes U: "asciiFaithful U" and al: "isAsciiAlnum ch"
  shows "inClassIgnoreCase U ch"
proof (cases "isUpperAZ ch")
  case True
  let ?a = "ch + 0x20"
  have ch80: "ch < 0x80" using True by (rule class_bounds(2))
  have cc: "canonicalize U ch = asciiUpper ch" by (rule canonicalize_ascii [OF U ch80])
  from asciiUpper_upper [OF True] have l: "isLowerAZ ?a" and u: "asciiUpper ?a = ch"
    by blast+
  have a80: "?a < 0x80" using l by (rule class_bounds(1))
  have ca: "canonicalize U ?a = asciiUpper ?a" by (rule canonicalize_ascii [OF U a80])
  have "\<not> isLowerAZ ch" using class_bounds(5) [OF True] by blast
  then have "asciiUpper ch = ch" by (simp add: asciiUpper_def)
  then have "canonicalize U ?a = canonicalize U ch" using cc ca u by simp
  then have "\<exists>a. (isLowerAZ a \<or> isDigit a) \<and> canonicalize U a = canonicalize U ch"
    using l by blast
  then show ?thesis unfolding inClassIgnoreCase_def alnumClass_set by blast
next
  case False
  then have "isLowerAZ ch \<or> isDigit ch" using al unfolding isAsciiAlnum_def by blast
  then have "\<exists>a. (isLowerAZ a \<or> isDigit a) \<and> canonicalize U a = canonicalize U ch"
    by blast
  then show ?thesis unfolding inClassIgnoreCase_def alnumClass_set by blast
qed

lemma inClassIgnoreCase_iff:
  "asciiFaithful U \<Longrightarrow> inClassIgnoreCase U ch = isAsciiAlnum ch"
  using inClassIgnoreCase_alnum alnum_inClassIgnoreCase by blast

lemma normalizeForPalindrome_normalizedForm:
  "asciiFaithful U \<Longrightarrow> normalizeForPalindrome U v = normalizedForm U v"
  by (simp add: normalizeForPalindrome_def normalizedForm_def stripNonAlnum_def
      inClassIgnoreCase_iff cong: filter_cong)

lemma isAscii_map_asciiLower: "isAscii s \<Longrightarrow> isAscii (map asciiLower s)"
  by (auto simp: isAscii_def asciiLower_def isUpperAZ_def word_le_nat_alt word_less_nat_alt
      unat_word_ariths)

lemma normalizedForm_ascii:
  assumes "asciiFaithful U" "isAscii v"
  shows "normalizedForm U v = filter isAsciiAlnum (removeAccents (map asciiLower v))"
proof -
  have 1: "toLowerCase U v = map asciiLower v" using assms by (simp add: asciiFaithful_def)
  have 2: "normalizeNFD U (map asciiLower v) = map asciiLower v"
    using assms isAscii_map_asciiLower [of v] by (simp add: asciiFaithful_def)
  show ?thesis by (simp add: normalizedForm_def 1 2)
qed

lemma is_palindrome_normalizedForm:
  "asciiFaithful U \<Longrightarrow>
   p_is_palindrome (computeStringProperties U digest v) =
     (normalizedForm U v \<noteq> [] \<and> normalizedForm U v = rev (normalizedForm U v))"
  by (simp add: computeStringProperties_def Let_def normalizeForPalindrome_normalizedForm)

lemma punctuation_normalizes_to_empty:
  assumes "asciiFaithful U" "isAscii v" "\<forall>c \<in> set v. \<not> isAsciiAlnum c"
  shows "normalizedForm U v = []"
proof -
  have "map asciiLower v = v"
    using assms(3) by (auto simp: isAsciiAlnum_def asciiLower_def intro: map_idI)
  then show ?thesis
    using assms by (simp add: normalizedForm_ascii removeAccents_def filter_empty_conv)
qed

lemmas alnum_defs = isAsciiAlnum_def removeAccents_def isLowerAZ_def isUpperAZ_def isDigit_def
  asciiLower_def js_def isAscii_def

lemma ex_panama:
  "filter isAsciiAlnum (removeAccents (map asciiLower (js ''A man, a plan, a canal: Panama''))) =
   js ''amanaplanacanalpanama''"
  by (simp add: alnum_defs)

lemma ex_hello:
  "filter isAsciiAlnum (removeAccents (map asciiLower (js ''hello''))) = js ''hello''"
  by (simp add: alnum_defs)

lemma ex_dots:
  "filter isAsciiAlnum (removeAccents (map asciiLower (js ''...''))) = []"
  by (simp add: alnum_defs)

lemma ex_ascii:
  "isAscii (js ''A man, a plan, a canal: Panama'')" "isAscii (js ''hello'')" "isAscii (js ''...'')"
  by (simp_all add: isAscii_def js_def)

text \<open>
  C2. \<open>is_palindrome\<close> is true exactly when the normalized form of the value (lower-cased,
  decomposed and freed of combining marks, every character that is not an ASCII letter or
  digit removed) is not empty and equal to its reversal. A value whose normalized form is
  empty, such as one of ASCII punctuation and whitespace only, is not a palindrome;
  "A man, a plan, a canal: Panama" is one, "hello" and "..." are not.
\<close>

theorem is_palindrome_iff_normalized:
  "asciiFaithful U \<longrightarrow>
     (p_is_palindrome (computeStringProperties U digest v) =
        (normalizedForm U v \<noteq> [] \<and> normalizedForm U v = rev (normalizedForm U v))) \<and>
     (isAscii v \<and> (\<forall>c \<in> set v. \<not> isAsciiAlnum c) \<longrightarrow>
        normalizedForm U v = [] \<and> \<not> p_is_palindrome (computeStringProperties U digest v)) \<and>
     p_is_palindrome (computeStringProperties U digest (js ''A man, a plan, a canal: Panama'')) \<and>
     \<not> p_is_palindrome (computeStringProperties U digest (js ''hello'')) \<and>
     \<not> p_is_palindrome (computeStringProperties U digest (js ''...''))"
proof
  assume U: "asciiFaithful U"
  note iff = is_palindrome_normalizedForm [OF U]
  have 2: "isAscii v \<and> (\<forall>c \<in> set v. \<not> isAsciiAlnum c) \<longrightarrow>
        normalizedForm U v = [] \<and> \<not> p_is_palindrome (computeStringProperties U digest v)"
    using punctuation_normalizes_to_empty [OF U] iff by simp
  have 3: "p_is_palindrome (computeStringProperties U digest (js ''A man, a plan, a canal: Panama''))"
    unfolding iff normalizedForm_ascii [OF U ex_ascii(1)] ex_panama by (simp add: js_def)
  have 4: "\<not> p_is_palindrome (computeStringProperties U digest (js ''hello''))"
    unfolding iff normalizedForm_ascii [OF U ex_ascii(2)] ex_hello by (simp add: js_def)
  have 5: "\<not> p_is_palindrome (computeStringProperties U digest (js ''...''))"
    unfolding iff normalizedForm_ascii [OF U ex_ascii(3)] ex_dots by simp
  show "(p_is_palindrome (computeStringProperties U digest v) =
        (normalizedForm U v \<noteq> [] \<and> normalizedForm U v = rev (normalizedForm U v))) \<and>
     (isAscii v \<and> (\<forall>c \<in> set v. \<not> isAsciiAlnum c) \<longrightarrow>
        normalizedForm U v = [] \<and> \<not> p_is_palindrome (computeStringProperties U digest v)) \<and>
     p_is_palindrome (computeStringProperties U digest (js ''A man, a plan, a canal: Panama'')) \<and>
     \<not> p_is_palindrome (computeStringProperties U digest (js ''hello'')) \<and>
     \<not> p_is_palindrome (computeStringProperties U digest (js ''...''))"
    using iff 2 3 4 5 by blast
qed

theorem is_palindrome_iff_normalized_witness:
  "asciiFaithful asciiUnicode \<and>
   isAscii (js '', !'') \<and> filter isAsciiAlnum (js '', !'') = [] \<and>
   normalizedForm asciiUnicode (js '', !'') = [] \<and>
   \<not> p_is_palindrome (computeStringProperties asciiUnicode id (js '', !'')) \<and>
   p_is_palindrome (computeStringProperties asciiUnicode id (js ''A man, a plan, a canal: Panama''))"
proof -
  have a: "isAscii (js '', !'')" by (simp add: isAscii_def js_def)
  have b: "\<forall>c \<in> set (js '', !''). \<not> isAsciiAlnum c" by (simp add: alnum_defs)
  have c: "filter isAsciiAlnum (js '', !'') = []" using b by (simp add: filter_empty_conv)
  note t = is_palindrome_iff_normalized [of asciiUnicode id "js '', !''"]
  have 1: "normalizedForm asciiUnicode (js '', !'') = []"
    using t asciiFaithful_asciiUnicode a b by blast
  have 2: "\<not> p_is_palindrome (computeStringProperties asciiUnicode id (js '', !''))"
    using t asciiFaithful_asciiUnicode a b by blast
  have 3: "p_is_palindrome
      (computeStringProperties asciiUnicode id (js ''A man, a plan, a canal: Panama''))"
    using t asciiFaithful_asciiUnicode by blast
  show ?thesis using asciiFaithful_asciiUnicode a c 1 2 3 by (intro conjI)
qed

subsection \<open>Code points\<close>

lemma Array_from_elements: "e \<in> set (Array_from v) \<Longrightarrow> isElement e"
  by (induction v rule: Array_from.induct) (auto simp: isElement_def split: if_splits)

lemma codePoints_Array_from: "codePoints v = map codePointOf (Array_from v)"
  by (induction v rule: Array_from.induct) (auto simp: codePointOf_def)

lemma surrogate_nat:
  "isHighSurrogate h \<Longrightarrow> 0xD800 \<le> unat h \<and> unat h \<le> 0xDBFF"
  "isLowSurrogate l \<Longrightarrow> 0xDC00 \<le> unat l \<and> unat l \<le> 0xDFFF"
  by (auto simp: isHighSurrogate_def isLowSurrogate_def word_le_nat_alt)

lemma unat_16_bound: "unat (c :: 16 word) < 0x10000"
  using unsigned_less [of c] by simp

lemma codePointOf_inj:
  assumes "isElement a" "isElement b" "codePointOf a = codePointOf b"
  shows "a = b"
proof -
  consider (ss) c d where "a = [c]" "b = [d]"
    | (sp) c h l where "a = [c]" "b = [h, l]" "isHighSurrogate h" "isLowSurrogate l"
    | (ps) c h l where "b = [c]" "a = [h, l]" "isHighSurrogate h" "isLowSurrogate l"
    | (pp) h l h' l' where "a = [h, l]" "isHighSurrogate h" "isLowSurrogate l"
        "b = [h', l']" "isHighSurrogate h'" "isLowSurrogate l'"
    using assms(1,2) unfolding isElement_def by blast
  then show ?thesis
  proof cases
    case ss
    then show ?thesis using assms(3) by (simp add: codePointOf_def word_unat_eq_iff)
  next
    case sp
    then show ?thesis
      using assms(3) unat_16_bound [of c] by (simp add: codePointOf_def)
  next
    case ps
    then show ?thesis
      using assms(3) unat_16_bound [of c] by (simp add: codePointOf_def)
  next
    case pp
    note H = surrogate_nat(1) [OF pp(2)] surrogate_nat(1) [OF pp(5)]
    note L = surrogate_nat(2) [OF pp(3)] surrogate_nat(2) [OF pp(6)]
    define x where "x = unat h - 0xD800"
    define y where "y = unat l - 0xDC00"
    define x' where "x' = unat h' - 0xD800"
    define y' where "y' = unat l' - 0xDC00"
    have y: "y < 1024" "y' < 1024" using L unfolding y_def y'_def by linarith+
    have "x * 1024 + y = x' * 1024 + y'"
      using assms(3) pp by (simp add: codePointOf_def x_def y_def x'_def y'_def)
    then have "(x * 1024 + y) div 1024 = (x' * 1024 + y') div 1024"
      and "(x * 1024 + y) mod 1024 = (x' * 1024 + y') mod 1024" by simp_all
    then have "x = x'" "y = y'" using y by simp_all
    then have "unat h = unat h' \<and> unat l = unat l'"
      using H L unfolding x_def y_def x'_def y'_def by linarith
    then show ?thesis using pp by (simp add: word_unat_eq_iff)
  qed
qed

lemma codePointOf_inj_on: "inj_on codePointOf (set (Array_from v))"
  by (rule inj_onI) (blast intro: codePointOf_inj Array_from_elements)

lemma card_codePoints: "card (set (codePoints v)) = card (set (Array_from v))"
  unfolding codePoints_Array_from set_map by (rule card_image [OF codePointOf_inj_on])

lemma count_list_inj:
  assumes "\<And>x. x \<in> set xs \<Longrightarrow> f x = f e \<Longrightarrow> x = e"
  shows "count_list (map f xs) (f e) = count_list xs e"
  using assms by (induction xs) auto

lemma count_codePoints:
  assumes "e \<in> set (Array_from v)"
  shows "count_list (codePoints v) (codePointOf e) = count_list (Array_from v) e"
  unfolding codePoints_Array_from
  by (rule count_list_inj) (blast intro: codePointOf_inj Array_from_elements assms)

subsection \<open>The frequency map\<close>

lemma countLoop_apply:
  "countLoop xs m e =
     (if e \<in> set xs then Some (count_list xs e + (case m e of None \<Rightarrow> 0 | Some n \<Rightarrow> n))
      else m e)"
  by (induction xs arbitrary: m) auto

lemma buildCharacterFrequencyMap_apply:
  "buildCharacterFrequencyMap v e =
     (if e \<in> set (Array_from v) then Some (count_list (Array_from v) e) else None)"
  by (simp add: buildCharacterFrequencyMap_def countLoop_apply)

lemma buildCharacterFrequencyMap_dom: "dom (buildCharacterFrequencyMap v) = set (Array_from v)"
  by (auto simp: dom_def buildCharacterFrequencyMap_apply)

subsection \<open>Hexadecimal digits\<close>

lemma toHex_byte: "padStart2 (toString16 (unat (b :: 8 word))) = hexPair b"
proof -
  have b: "unat b < 256" using unsigned_less [of b] by simp
  show ?thesis
  proof (cases "unat b < 16")
    case True
    then show ?thesis
      by (simp add: toString16.simps [of "unat b"] padStart2_def hexPair_def hexDigit_def)
  next
    case False
    then have d: "unat b div 16 < 16" using b by simp
    have "toString16 (unat b) = [hexDigit (unat b div 16), hexDigit (unat b mod 16)]"
      using False d
      by (simp add: toString16.simps [of "unat b"] toString16.simps [of "unat b div 16"])
    then show ?thesis by (simp add: padStart2_def hexPair_def)
  qed
qed

lemma toHex_hexPair: "toHex bs = concat (map hexPair bs)"
  by (simp add: toHex_def toHex_byte)

subsection \<open>Words\<close>

lemma tokensFrom_dropWhile: "tokensFrom [] (dropWhile isWhiteSpace s) = tokensFrom [] s"
  by (induction s) auto

lemma last_dropWhile: "dropWhile P xs \<noteq> [] \<Longrightarrow> last (dropWhile P xs) = last xs"
  by (metis last_appendR takeWhile_dropWhile_id)

lemma split_tokens:
  assumes "s = [] \<longrightarrow> cur \<noteq> []"
    and "s \<noteq> [] \<longrightarrow> \<not> isWhiteSpace (last s)"
    and "cur = [] \<longrightarrow> s \<noteq> [] \<and> \<not> isWhiteSpace (hd s)"
  shows "split_ws cur s = tokensFrom cur s"
  using assms
proof (induction cur s rule: split_ws.induct)
  case (1 cur)
  then show ?case by simp
next
  case (2 cur c cs)
  show ?case
  proof (cases "isWhiteSpace c")
    case True
    then have cur: "cur \<noteq> []" using "2.prems"(3) by auto
    have cs: "cs \<noteq> []" "\<not> isWhiteSpace (last cs)"
      using "2.prems"(2) True by (auto split: if_splits)
    then have "\<exists>x \<in> set cs. \<not> isWhiteSpace x" using last_in_set by blast
    then have d: "dropWhile isWhiteSpace cs \<noteq> []" by (simp add: dropWhile_eq_Nil_conv)
    have h: "\<not> isWhiteSpace (hd (dropWhile isWhiteSpace cs))"
      using d by (rule hd_dropWhile)
    have l: "\<not> isWhiteSpace (last (dropWhile isWhiteSpace cs))"
      using last_dropWhile [OF d] cs(2) by simp
    have "split_ws [] (dropWhile isWhiteSpace cs) = tokensFrom [] (dropWhile isWhiteSpace cs)"
      using "2.IH"(1) [OF True] d h l by simp
    then show ?thesis using True cur by (simp add: tokensFrom_dropWhile)
  next
    case False
    have "split_ws (cur @ [c]) cs = tokensFrom (cur @ [c]) cs"
      using "2.IH"(2) [OF False] "2.prems"(2) by (auto split: if_splits)
    then show ?thesis using False by simp
  qed
qed

lemma trim_ends:
  assumes "trim s \<noteq> []"
  shows "\<not> isWhiteSpace (hd (trim s))" "\<not> isWhiteSpace (last (trim s))"
proof -
  let ?u = "dropWhile isWhiteSpace s"
  let ?w = "dropWhile isWhiteSpace (rev ?u)"
  have w: "?w \<noteq> []" using assms by (simp add: trim_def)
  have u: "?u \<noteq> []" using w by (cases "?u = []") simp_all
  have "last (trim s) = hd ?w" using w by (simp add: trim_def last_rev)
  then show "\<not> isWhiteSpace (last (trim s))" using hd_dropWhile [OF w] by simp
  have "hd (trim s) = last ?w" using w by (simp add: trim_def hd_rev)
  also have "\<dots> = last (rev ?u)" by (rule last_dropWhile [OF w])
  also have "\<dots> = hd ?u" using u by (simp add: last_rev)
  finally show "\<not> isWhiteSpace (hd (trim s))" using hd_dropWhile [OF u] by simp
qed

lemma trim_empty_iff: "(trim s = []) = (\<forall>c \<in> set s. isWhiteSpace c)"
proof
  let ?u = "dropWhile isWhiteSpace s"
  assume "trim s = []"
  then have "dropWhile isWhiteSpace (rev ?u) = []" unfolding trim_def by simp
  then have all: "\<forall>x \<in> set ?u. isWhiteSpace x"
    unfolding dropWhile_eq_Nil_conv by simp
  have "?u = []"
  proof (rule ccontr)
    assume u: "?u \<noteq> []"
    then have "hd ?u \<in> set ?u" by (rule hd_in_set)
    then show False using all hd_dropWhile [OF u] by blast
  qed
  then show "\<forall>c \<in> set s. isWhiteSpace c" unfolding dropWhile_eq_Nil_conv .
next
  assume "\<forall>c \<in> set s. isWhiteSpace c"
  then have d: "dropWhile isWhiteSpace s = []" unfolding dropWhile_eq_Nil_conv .
  show "trim s = []" unfolding trim_def d by simp
qed

lemma calculateWordCount_tokens: "calculateWordCount v = length (tokens (trim v))"
proof (cases "trim v = []")
  case True
  then show ?thesis by (simp add: calculateWordCount_def tokens_def)
next
  case False
  have "split_ws [] (trim v) = tokensFrom [] (trim v)"
    using trim_ends [OF False] False by (intro split_tokens) simp_all
  then show ?thesis using False by (simp add: calculateWordCount_def tokens_def)
qed

lemmas prop_eval = js_def trim_def isWhiteSpace_def isHighSurrogate_def isLowSurrogate_def

lemma ex_words:
  "calculateWordCount (js ''   '') = 0"
  "calculateWordCount (js ''one two  three'') = 3"
  by (simp_all add: calculateWordCount_def prop_eval)

lemma ex_unique:
  "card (set (Array_from (js ''Aa''))) = 2"
  "card (set (Array_from (js ''aabbcc''))) = 3"
  by (simp_all add: prop_eval)

text \<open>
  C8. The properties are functions of the value alone. \<open>length\<close> is the number of code
  points of the raw value and \<open>unique_characters\<close> the number of distinct ones, case
  distinguished; \<open>word_count\<close> is 0 for a value of whitespace only and otherwise the
  number of maximal runs without whitespace in the trimmed value; the frequency map has one
  key for each code point of the raw value, whitespace and punctuation included, with the
  number of its occurrences; \<open>sha256_hash\<close> is the digest of the UTF-8 bytes of the raw
  value in two lower-case hexadecimal digits for each byte.
\<close>

theorem properties_of_value:
  "p_length (computeStringProperties U digest v) = length (codePoints v) \<and>
   p_unique_characters (computeStringProperties U digest v) = card (set (codePoints v)) \<and>
   p_word_count (computeStringProperties U digest v) =
     (if \<forall>c \<in> set v. isWhiteSpace c then 0 else length (tokens (trim v))) \<and>
   codePoints v = map codePointOf (Array_from v) \<and>
   dom (p_character_frequency_map (computeStringProperties U digest v)) = set (Array_from v) \<and>
   (\<forall>e \<in> set (Array_from v).
      p_character_frequency_map (computeStringProperties U digest v) e =
        Some (count_list (codePoints v) (codePointOf e))) \<and>
   p_sha256_hash (computeStringProperties U digest v) = concat (map hexPair (digest (encode v))) \<and>
   p_unique_characters (computeStringProperties U digest (js ''Aa'')) = 2 \<and>
   p_unique_characters (computeStringProperties U digest (js ''aabbcc'')) = 3 \<and>
   p_word_count (computeStringProperties U digest (js ''   '')) = 0 \<and>
   p_word_count (computeStringProperties U digest (js ''one two  three'')) = 3"
proof -
  have 1: "p_length (computeStringProperties U digest v) = length (codePoints v)"
    by (simp add: computeStringProperties_def Let_def codePoints_Array_from)
  have 2: "p_unique_characters (computeStringProperties U digest v) = card (set (codePoints v))"
    by (simp add: computeStringProperties_def Let_def card_codePoints)
  have 3: "p_word_count (computeStringProperties U digest v) =
     (if \<forall>c \<in> set v. isWhiteSpace c then 0 else length (tokens (trim v)))"
    using trim_empty_iff [of v]
    by (auto simp: computeStringProperties_def Let_def calculateWordCount_tokens tokens_def)
  have 4: "dom (p_character_frequency_map (computeStringProperties U digest v)) =
      set (Array_from v)"
    by (simp add: computeStringProperties_def Let_def buildCharacterFrequencyMap_dom)
  have 5: "\<forall>e \<in> set (Array_from v).
      p_character_frequency_map (computeStringProperties U digest v) e =
        Some (count_list (codePoints v) (codePointOf e))"
    by (simp add: computeStringProperties_def Let_def buildCharacterFrequencyMap_apply
        count_codePoints)
  have 6: "p_sha256_hash (computeStringProperties U digest v) =
      concat (map hexPair (digest (encode v)))"
    by (simp add: computeStringProperties_def Let_def toHex_hexPair)
  have 7: "p_unique_characters (computeStringProperties U digest (js ''Aa'')) = 2"
    "p_unique_characters (computeStringProperties U digest (js ''aabbcc'')) = 3"
    "p_word_count (computeStringProperties U digest (js ''   '')) = 0"
    "p_word_count (computeStringProperties U digest (js ''one two  three'')) = 3"
    by (simp_all add: computeStringProperties_def Let_def ex_words ex_unique)
  show ?thesis using 1 2 3 4 5 6 7 codePoints_Array_from by blast
qed

theorem properties_of_value_witness:
  "trim (js ''   '') = [] \<and>
   p_word_count (computeStringProperties asciiUnicode id (js ''   '')) = 0 \<and>
   js ''a'' \<in> set (Array_from (js ''a b a'')) \<and>
   codePointOf (js ''a'') = 97 \<and>
   codePoints (js ''a b a'') = [97, 32, 98, 32, 97] \<and>
   p_character_frequency_map (computeStringProperties asciiUnicode id (js ''a b a'')) (js ''a'') =
     Some 2"
proof -
  have a: "\<forall>c \<in> set (js ''   ''). isWhiteSpace c" by (simp add: prop_eval)
  have b: "js ''a'' \<in> set (Array_from (js ''a b a''))" by (simp add: prop_eval)
  have c: "codePointOf (js ''a'') = 97" by (simp add: codePointOf_def js_def)
  have d: "codePoints (js ''a b a'') = [97, 32, 98, 32, 97]" by (simp add: prop_eval)
  have e: "count_list [97, 32, 98, 32, 97] (97 :: nat) = 2" by simp
  have "p_word_count (computeStringProperties asciiUnicode id (js ''   '')) =
      (if \<forall>c \<in> set (js ''   ''). isWhiteSpace c then 0 else length (tokens (trim (js ''   ''))))"
    using properties_of_value [of asciiUnicode id "js ''   ''"] by (elim conjE) assumption
  then have w: "p_word_count (computeStringProperties asciiUnicode id (js ''   '')) = 0"
    using a by simp
  have "\<forall>e \<in> set (Array_from (js ''a b a'')).
      p_character_frequency_map (computeStringProperties asciiUnicode id (js ''a b a'')) e =
        Some (count_list (codePoints (js ''a b a'')) (codePointOf e))"
    using properties_of_value [of asciiUnicode id "js ''a b a''"] by (elim conjE) assumption
  then have "p_character_frequency_map (computeStringProperties asciiUnicode id (js ''a b a''))
      (js ''a'') = Some (count_list (codePoints (js ''a b a'')) (codePointOf (js ''a'')))"
    using b by (rule bspec)
  then have f: "p_character_frequency_map (computeStringProperties asciiUnicode id (js ''a b a''))
      (js ''a'') = Some 2"
    unfolding c d e .
  have t: "trim (js ''   '') = []" using a by (simp add: trim_empty_iff)
  show ?thesis using t b c d w f by (intro conjI)
qed

subsection \<open>Reading a row back\<close>

lemma parseFrequencyMap_cases:
  "parseFrequencyMap raw =
     (case JSON_parse raw of
        Inl SyntaxError \<Rightarrow> JObject []
      | Inr (JObject ms) \<Rightarrow> JObject ms
      | Inr (JArray vs) \<Rightarrow> JArray vs
      | Inr _ \<Rightarrow> JObject [])"
  by (simp add: parseFrequencyMap_def typeof_def split: sum.splits json.splits syntax_error.splits)

lemma json_examples:
  "JSON_parse (js ''[1]'') = Inr (JArray [JNumber (js ''1'')])"
  "JSON_parse (js ''{'' @ [0x22] @ js ''ab'' @ [0x22] @ js '':1.5}'') =
     Inr (JObject [(js ''ab'', JNumber (js ''1.5''))])"
  "JSON_parse (js ''oops'') = Inl SyntaxError"
  "JSON_parse (js ''12'') = Inr (JNumber (js ''12''))"
  "JSON_parse (js ''{}'') = Inr (JObject [])"
  by code_simp+

text \<open>
  C9, amended. Reading a row back yields a record for every text in the column
  \<open>character_frequency_map\<close>: the only exception of the read, the one of \<open>JSON.parse\<close>,
  is caught. The frequency map of the record is empty when the text is not JSON or is the
  JSON of \<open>null\<close>, a boolean, a number or a string; a JSON object or array is returned
  as it was parsed. The other fields are those of the row.
\<close>

theorem frequency_map_read_back:
  "p_character_frequency_map (rec_properties (mapRowToRecord row)) =
     (case JSON_parse (r_character_frequency_map row) of
        Inl SyntaxError \<Rightarrow> JObject []
      | Inr (JObject ms) \<Rightarrow> JObject ms
      | Inr (JArray vs) \<Rightarrow> JArray vs
      | Inr _ \<Rightarrow> JObject []) \<and>
   (JSON_parse (r_character_frequency_map row) = Inl SyntaxError \<longrightarrow>
      p_character_frequency_map (rec_properties (mapRowToRecord row)) = JObject []) \<and>
   (validFrequencyJson (r_character_frequency_map row) \<longrightarrow>
      JSON_parse (r_character_frequency_map row) =
        Inr (p_character_frequency_map (rec_properties (mapRowToRecord row)))) \<and>
   rec_id (mapRowToRecord row) = r_id row \<and>
   rec_value (mapRowToRecord row) = r_value row \<and>
   rec_created_at (mapRowToRecord row) = r_created_at row \<and>
   p_length (rec_properties (mapRowToRecord row)) = r_length row \<and>
   p_is_palindrome (rec_properties (mapRowToRecord row)) = (r_is_palindrome row \<noteq> 0) \<and>
   p_unique_characters (rec_properties (mapRowToRecord row)) = r_unique_characters row \<and>
   p_word_count (rec_properties (mapRowToRecord row)) = r_word_count row \<and>
   p_sha256_hash (rec_properties (mapRowToRecord row)) = r_id row"
  by (auto simp: mapRowToRecord_def parseFrequencyMap_cases validFrequencyJson_def
      split: sum.splits json.splits)

theorem frequency_map_read_back_witness:
  "JSON_parse (js ''oops'') = Inl SyntaxError \<and>
   p_character_frequency_map (rec_properties (mapRowToRecord
     \<lparr>r_id = js ''id'', r_value = js ''abc'', r_length = 3, r_is_palindrome = 0,
      r_unique_characters = 3, r_word_count = 1, r_character_frequency_map = js ''oops'',
      r_created_at = js ''2025''\<rparr>)) = JObject [] \<and>
   validFrequencyJson (js ''{}'') \<and>
   p_character_frequency_map (rec_properties (mapRowToRecord
     \<lparr>r_id = js ''id'', r_value = js ''abc'', r_length = 3, r_is_palindrome = 0,
      r_unique_characters = 3, r_word_count = 1, r_character_frequency_map = js ''{}'',
      r_created_at = js ''2025''\<rparr>)) = JObject []"
proof -
  have v: "validFrequencyJson (js ''{}'')"
    unfolding validFrequencyJson_def json_examples(5) by simp
  have f: "\<And>i v l p u w c t. r_character_frequency_map
      \<lparr>r_id = i, r_value = v, r_length = l, r_is_palindrome = p, r_unique_characters = u,
       r_word_count = w, r_character_frequency_map = c, r_created_at = t\<rparr> = c"
    by simp
  note t1 = frequency_map_read_back [of
        "\<lparr>r_id = js ''id'', r_value = js ''abc'', r_length = 3, r_is_palindrome = 0,
          r_unique_characters = 3, r_word_count = 1, r_character_frequency_map = js ''oops'',
          r_created_at = js ''2025''\<rparr>", unfolded f]
  note t2 = frequency_map_read_back [of
        "\<lparr>r_id = js ''id'', r_value = js ''abc'', r_length = 3, r_is_palindrome = 0,
          r_unique_characters = 3, r_word_count = 1, r_character_frequency_map = js ''{}'',
          r_created_at = js ''2025''\<rparr>", unfolded f]
  have 1: "p_character_frequency_map (rec_properties (mapRowToRecord
     \<lparr>r_id = js ''id'', r_value = js ''abc'', r_length = 3, r_is_palindrome = 0,
      r_unique_characters = 3, r_word_count = 1, r_character_frequency_map = js ''oops'',
      r_created_at = js ''2025''\<rparr>)) = JObject []"
    using t1 json_examples(3) by blast
  have "JSON_parse (js ''{}'') = Inr (p_character_frequency_map (rec_properties (mapRowToRecord
     \<lparr>r_id = js ''id'', r_value = js ''abc'', r_length = 3, r_is_palindrome = 0,
      r_unique_characters = 3, r_word_count = 1, r_character_frequency_map = js ''{}'',
      r_created_at = js ''2025''\<rparr>)))"
    using t2 v by blast
  then have 2: "p_character_frequency_map (rec_properties (mapRowToRecord
     \<lparr>r_id = js ''id'', r_value = js ''abc'', r_length = 3, r_is_palindrome = 0,
      r_unique_characters = 3, r_word_count = 1, r_character_frequency_map = js ''{}'',
      r_created_at = js ''2025''\<rparr>)) = JObject []"
    unfolding json_examples(5) by simp
  show ?thesis using 1 2 v json_examples(3) by blast
qed

text \<open>
  C9 as stated fails. The texts \<open>[1]\<close> and \<open>{"ab":1.5}\<close> are not encodings of a map
  from single characters to integer counts, and the record read back carries the array,
  or the object with the key \<open>ab\<close>, in place of an empty map.
\<close>

theorem frequency_map_read_back_counterexample:
  "\<not> validFrequencyJson (js ''[1]'') \<and>
   p_character_frequency_map (rec_properties (mapRowToRecord
     \<lparr>r_id = js ''id'', r_value = js ''abc'', r_length = 3, r_is_palindrome = 0,
      r_unique_characters = 3, r_word_count = 1, r_character_frequency_map = js ''[1]'',
      r_created_at = js ''2025''\<rparr>)) = JArray [JNumber (js ''1'')] \<and>
   JArray [JNumber (js ''1'')] \<noteq> JObject [] \<and>
   \<not> validFrequencyJson (js ''{'' @ [0x22] @ js ''ab'' @ [0x22] @ js '':1.5}'') \<and>
   p_character_frequency_map (rec_properties (mapRowToRecord
     \<lparr>r_id = js ''id'', r_value = js ''abc'', r_length = 3, r_is_palindrome = 0,
      r_unique_characters = 3, r_word_count = 1,
      r_character_frequency_map = js ''{'' @ [0x22] @ js ''ab'' @ [0x22] @ js '':1.5}'',
      r_created_at = js ''2025''\<rparr>)) = JObject [(js ''ab'', JNumber (js ''1.5''))] \<and>
   JObject [(js ''ab'', JNumber (js ''1.5''))] \<noteq> JObject []"
proof -
  have a: "\<not> validFrequencyJson (js ''[1]'')"
    unfolding validFrequencyJson_def json_examples(1) by simp
  have i: "\<not> isCount (JNumber (js ''1.5''))"
    by (simp add: isCount_def js_def isDigit_def)
  have b: "\<not> validFrequencyJson (js ''{'' @ [0x22] @ js ''ab'' @ [0x22] @ js '':1.5}'')"
    unfolding validFrequencyJson_def json_examples(2) using i by simp
  have c: "parseFrequencyMap (js ''[1]'') = JArray [JNumber (js ''1'')]"
    unfolding parseFrequencyMap_cases json_examples(1) by simp
  have d: "parseFrequencyMap (js ''{'' @ [0x22] @ js ''ab'' @ [0x22] @ js '':1.5}'') =
      JObject [(js ''ab'', JNumber (js ''1.5''))]"
    unfolding parseFrequencyMap_cases json_examples(2) by simp
  have e: "\<And>row. p_character_frequency_map (rec_properties (mapRowToRecord row)) =
      parseFrequencyMap (r_character_frequency_map row)"
    by (simp add: mapRowToRecord_def)
  have f: "\<And>i v l p u w c t. r_character_frequency_map
      \<lparr>r_id = i, r_value = v, r_length = l, r_is_palindrome = p, r_unique_characters = u,
       r_word_count = w, r_character_frequency_map = c, r_created_at = t\<rparr> = c"
    by simp
  have g: "JArray [JNumber (js ''1'')] \<noteq> JObject []"
    "JObject [(js ''ab'', JNumber (js ''1.5''))] \<noteq> JObject []" by simp_all
  show ?thesis
    unfolding e f c d using a b g by blast
qed

subsection \<open>Inserting a value\<close>

lemma postCheck_iff:
  "postCheck properties v db =
     (\<exists>r \<in> set db. r_id r = p_sha256_hash properties \<or> r_value r = v)"
  by (auto simp: postCheck_def selectExisting_def find_None_iff)

lemma newRow_fields:
  "r_id (newRow stringify t v p) = p_sha256_hash p"
  "r_value (newRow stringify t v p) = v"
  "r_length (newRow stringify t v p) = p_length p"
  "r_is_palindrome (newRow stringify t v p) = (if p_is_palindrome p then 1 else 0)"
  "r_unique_characters (newRow stringify t v p) = p_unique_characters p"
  "r_word_count (newRow stringify t v p) = p_word_count p"
  "r_character_frequency_map (newRow stringify t v p) = stringify (p_character_frequency_map p)"
  "r_created_at (newRow stringify t v p) = t"
  by (simp_all add: newRow_def)

lemma postWrite_unchecked:
  assumes "\<not> postCheck p v db"
  shows "postWrite stringify t p v db =
     (db @ [newRow stringify t v p],
      Response 201 (CreatedBody
        \<lparr>rec_id = p_sha256_hash p, rec_value = v, rec_properties = p, rec_created_at = t\<rparr>))"
proof -
  have "\<not> (\<exists>r \<in> set db. r_id r = r_id (newRow stringify t v p) \<or>
      r_value r = r_value (newRow stringify t v p))"
    using assms unfolding postCheck_iff newRow_fields .
  then have "insertRow db (newRow stringify t v p) = Inr (db @ [newRow stringify t v p])"
    unfolding insertRow_def by simp
  then show ?thesis unfolding postWrite_def by simp
qed

lemma postWrite_existing:
  assumes "\<exists>r \<in> set db. r_id r = p_sha256_hash p \<or> r_value r = v"
  shows "postWrite stringify t p v db = (db, Uncaught UniqueConstraintFailed)"
proof -
  have "\<exists>r \<in> set db. r_id r = r_id (newRow stringify t v p) \<or>
      r_value r = r_value (newRow stringify t v p)"
    using assms unfolding newRow_fields .
  then have "insertRow db (newRow stringify t v p) = Inl UniqueConstraintFailed"
    unfolding insertRow_def by simp
  then show ?thesis unfolding postWrite_def by simp
qed

lemma postString_cases:
  "postString U digest stringify t v db =
     (if \<exists>r \<in> set db. r_id r = p_sha256_hash (computeStringProperties U digest v) \<or> r_value r = v
      then (db, alreadyExists)
      else (db @ [newRow stringify t v (computeStringProperties U digest v)],
            Response 201 (CreatedBody
              \<lparr>rec_id = p_sha256_hash (computeStringProperties U digest v), rec_value = v,
               rec_properties = computeStringProperties U digest v, rec_created_at = t\<rparr>)))"
proof (cases "postCheck (computeStringProperties U digest v) v db")
  case True
  then show ?thesis
    using True [unfolded postCheck_iff] by (simp add: postString_def Let_def)
next
  case False
  show ?thesis
    using False postWrite_unchecked [OF False] False [unfolded postCheck_iff]
    by (simp add: postString_def Let_def)
qed

text \<open>
  C3. An insert fails with Conflict exactly when the table has a row with the same id or
  the same value, and then leaves the table as it was. Otherwise it appends the row with
  the id, the value, the properties and the time of creation, answers 201 with the new
  record, and the table contains the row; a second insert of the same value then fails
  with Conflict.
\<close>

theorem insert_conflict_iff_exists:
  "(snd (postString U digest stringify t v db) = alreadyExists) =
     (\<exists>r \<in> set db. r_id r = p_sha256_hash (computeStringProperties U digest v) \<or> r_value r = v) \<and>
   ((\<exists>r \<in> set db. r_id r = p_sha256_hash (computeStringProperties U digest v) \<or> r_value r = v) \<longrightarrow>
      fst (postString U digest stringify t v db) = db) \<and>
   (\<not> (\<exists>r \<in> set db. r_id r = p_sha256_hash (computeStringProperties U digest v) \<or> r_value r = v) \<longrightarrow>
      postString U digest stringify t v db =
        (db @ [newRow stringify t v (computeStringProperties U digest v)],
         Response 201 (CreatedBody
           \<lparr>rec_id = p_sha256_hash (computeStringProperties U digest v), rec_value = v,
            rec_properties = computeStringProperties U digest v, rec_created_at = t\<rparr>)) \<and>
      newRow stringify t v (computeStringProperties U digest v) \<in>
        set (fst (postString U digest stringify t v db)) \<and>
      r_id (newRow stringify t v (computeStringProperties U digest v)) =
        p_sha256_hash (computeStringProperties U digest v) \<and>
      r_value (newRow stringify t v (computeStringProperties U digest v)) = v \<and>
      r_length (newRow stringify t v (computeStringProperties U digest v)) =
        p_length (computeStringProperties U digest v) \<and>
      r_is_palindrome (newRow stringify t v (computeStringProperties U digest v)) =
        (if p_is_palindrome (computeStringProperties U digest v) then 1 else 0) \<and>
      r_unique_characters (newRow stringify t v (computeStringProperties U digest v)) =
        p_unique_characters (computeStringProperties U digest v) \<and>
      r_word_count (newRow stringify t v (computeStringProperties U digest v)) =
        p_word_count (computeStringProperties U digest v) \<and>
      r_character_frequency_map (newRow stringify t v (computeStringProperties U digest v)) =
        stringify (p_character_frequency_map (computeStringProperties U digest v)) \<and>
      r_created_at (newRow stringify t v (computeStringProperties U digest v)) = t \<and>
      snd (postString U digest stringify t' v (fst (postString U digest stringify t v db))) =
        alreadyExists)"
proof -
  let ?p = "computeStringProperties U digest v"
  let ?ex = "\<exists>r \<in> set db. r_id r = p_sha256_hash ?p \<or> r_value r = v"
  have 1: "(snd (postString U digest stringify t v db) = alreadyExists) = ?ex"
    by (simp add: postString_cases alreadyExists_def)
  have 2: "?ex \<longrightarrow> fst (postString U digest stringify t v db) = db"
    by (simp add: postString_cases)
  have 3: "\<not> ?ex \<longrightarrow> postString U digest stringify t v db =
        (db @ [newRow stringify t v ?p],
         Response 201 (CreatedBody
           \<lparr>rec_id = p_sha256_hash ?p, rec_value = v, rec_properties = ?p,
            rec_created_at = t\<rparr>))"
    by (simp add: postString_cases)
  have 4: "\<not> ?ex \<longrightarrow> newRow stringify t v ?p \<in> set (fst (postString U digest stringify t v db))"
    by (simp add: postString_cases)
  have 5: "\<not> ?ex \<longrightarrow>
      snd (postString U digest stringify t' v (fst (postString U digest stringify t v db))) =
        alreadyExists"
  proof
    assume "\<not> ?ex"
    then have "fst (postString U digest stringify t v db) = db @ [newRow stringify t v ?p]"
      by (simp add: postString_cases)
    then show "snd (postString U digest stringify t' v
        (fst (postString U digest stringify t v db))) = alreadyExists"
      by (simp add: postString_cases [of U digest stringify t' v] newRow_fields)
  qed
  show ?thesis using 1 2 3 4 5 newRow_fields [of stringify t v ?p] by blast
qed

theorem insert_conflict_iff_exists_witness:
  "\<not> (\<exists>r \<in> set ([] :: table).
        r_id r = p_sha256_hash (computeStringProperties asciiUnicode id (js ''abc'')) \<or>
        r_value r = js ''abc'') \<and>
   postString asciiUnicode id (\<lambda>m. js ''{}'') (js ''t1'') (js ''abc'') [] =
     ([newRow (\<lambda>m. js ''{}'') (js ''t1'') (js ''abc'')
         (computeStringProperties asciiUnicode id (js ''abc''))],
      Response 201 (CreatedBody
        \<lparr>rec_id = p_sha256_hash (computeStringProperties asciiUnicode id (js ''abc'')),
         rec_value = js ''abc'',
         rec_properties = computeStringProperties asciiUnicode id (js ''abc''),
         rec_created_at = js ''t1''\<rparr>)) \<and>
   snd (postString asciiUnicode id (\<lambda>m. js ''{}'') (js ''t2'') (js ''abc'')
     (fst (postString asciiUnicode id (\<lambda>m. js ''{}'') (js ''t1'') (js ''abc'') []))) =
     alreadyExists \<and>
   (\<exists>r \<in> set (fst (postString asciiUnicode id (\<lambda>m. js ''{}'') (js ''t1'') (js ''abc'') [])).
      r_id r = p_sha256_hash (computeStringProperties asciiUnicode id (js ''abc'')) \<or>
      r_value r = js ''abc'')"
proof -
  have e: "\<not> (\<exists>r \<in> set ([] :: table).
        r_id r = p_sha256_hash (computeStringProperties asciiUnicode id (js ''abc'')) \<or>
        r_value r = js ''abc'')" by simp
  note t = insert_conflict_iff_exists
    [of asciiUnicode id "\<lambda>m. js ''{}''" "js ''t1''" "js ''abc''" "[]" "js ''t2''"]
  have 1: "postString asciiUnicode id (\<lambda>m. js ''{}'') (js ''t1'') (js ''abc'') [] =
     ([] @ [newRow (\<lambda>m. js ''{}'') (js ''t1'') (js ''abc'')
         (computeStringProperties asciiUnicode id (js ''abc''))],
      Response 201 (CreatedBody
        \<lparr>rec_id = p_sha256_hash (computeStringProperties asciiUnicode id (js ''abc'')),
         rec_value = js ''abc'',
         rec_properties = computeStringProperties asciiUnicode id (js ''abc''),
         rec_created_at = js ''t1''\<rparr>))"
    using t e by blast
  have 2: "snd (postString asciiUnicode id (\<lambda>m. js ''{}'') (js ''t2'') (js ''abc'')
     (fst (postString asciiUnicode id (\<lambda>m. js ''{}'') (js ''t1'') (js ''abc'') []))) =
     alreadyExists"
    using t e by blast
  have 3: "\<exists>r \<in> set (fst (postString asciiUnicode id (\<lambda>m. js ''{}'') (js ''t1'') (js ''abc'') [])).
      r_id r = p_sha256_hash (computeStringProperties asciiUnicode id (js ''abc'')) \<or>
      r_value r = js ''abc''"
    unfolding 1 by (simp add: newRow_fields)
  show ?thesis using e 1 2 3 by simp
qed

subsection \<open>Two inserts of one value\<close>

lemma postWrite_distinct:
  assumes "distinct (map r_id db)" "distinct (map r_value db)"
  shows "distinct (map r_id (fst (postWrite stringify t p v db))) \<and>
         distinct (map r_value (fst (postWrite stringify t p v db)))"
proof (cases "\<exists>r \<in> set db. r_id r = r_id (newRow stringify t v p) \<or>
    r_value r = r_value (newRow stringify t v p)")
  case True
  then have "insertRow db (newRow stringify t v p) = Inl UniqueConstraintFailed"
    unfolding insertRow_def by simp
  then show ?thesis using assms unfolding postWrite_def by simp
next
  case False
  then have "insertRow db (newRow stringify t v p) = Inr (db @ [newRow stringify t v p])"
    unfolding insertRow_def by simp
  then have "fst (postWrite stringify t p v db) = db @ [newRow stringify t v p]"
    unfolding postWrite_def by simp
  then show ?thesis using assms False by auto
qed

lemma racingPosts_table:
  "fst (racingPosts U digest stringify (t1, v1) (t2, v2) db) =
     (let p1 = computeStringProperties U digest v1;
          p2 = computeStringProperties U digest v2;
          db1 = (if postCheck p1 v1 db then db else fst (postWrite stringify t1 p1 v1 db))
      in if postCheck p2 v2 db then db1 else fst (postWrite stringify t2 p2 v2 db1))"
  by (simp add: racingPosts_def Let_def split_beta)

text \<open>
  C4. Two requests for the same value, of which no row exists, that both run their check
  before either writes: the first write succeeds; the second violates the constraints of
  the table and its exception is not caught, so the second request does not end in the
  Conflict response. The constraints do hold at the write: whatever the two requests are,
  a table with distinct ids and distinct values stays so.
\<close>

theorem racing_inserts:
  "(\<not> (\<exists>r \<in> set db. r_id r = p_sha256_hash (computeStringProperties U digest v) \<or> r_value r = v) \<longrightarrow>
      racingPosts U digest stringify (t1, v) (t2, v) db =
        (db @ [newRow stringify t1 v (computeStringProperties U digest v)],
         Response 201 (CreatedBody
           \<lparr>rec_id = p_sha256_hash (computeStringProperties U digest v), rec_value = v,
            rec_properties = computeStringProperties U digest v, rec_created_at = t1\<rparr>),
         Uncaught UniqueConstraintFailed)) \<and>
   Uncaught UniqueConstraintFailed \<noteq> alreadyExists \<and>
   (distinct (map r_id db) \<and> distinct (map r_value db) \<longrightarrow>
      distinct (map r_id (fst (racingPosts U digest stringify (t1, v1) (t2, v2) db))) \<and>
      distinct (map r_value (fst (racingPosts U digest stringify (t1, v1) (t2, v2) db))))"
proof -
  let ?p = "computeStringProperties U digest v"
  have 1: "racingPosts U digest stringify (t1, v) (t2, v) db =
        (db @ [newRow stringify t1 v ?p],
         Response 201 (CreatedBody
           \<lparr>rec_id = p_sha256_hash ?p, rec_value = v, rec_properties = ?p,
            rec_created_at = t1\<rparr>),
         Uncaught UniqueConstraintFailed)"
    if n: "\<not> (\<exists>r \<in> set db. r_id r = p_sha256_hash ?p \<or> r_value r = v)"
  proof -
    have c: "\<not> postCheck ?p v db" using n unfolding postCheck_iff .
    note w1 = postWrite_unchecked [OF c, of stringify t1]
    have "\<exists>r \<in> set (db @ [newRow stringify t1 v ?p]). r_id r = p_sha256_hash ?p \<or> r_value r = v"
      by (simp add: newRow_fields)
    then have w2: "postWrite stringify t2 ?p v (db @ [newRow stringify t1 v ?p]) =
        (db @ [newRow stringify t1 v ?p], Uncaught UniqueConstraintFailed)"
      by (rule postWrite_existing)
    show ?thesis using c by (simp add: racingPosts_def Let_def w1 w2)
  qed
  have 2: "Uncaught UniqueConstraintFailed \<noteq> alreadyExists"
    by (simp add: alreadyExists_def)
  have 3: "distinct (map r_id (fst (racingPosts U digest stringify (t1, v1) (t2, v2) db))) \<and>
      distinct (map r_value (fst (racingPosts U digest stringify (t1, v1) (t2, v2) db)))"
    if d: "distinct (map r_id db) \<and> distinct (map r_value db)"
  proof -
    let ?p1 = "computeStringProperties U digest v1"
    let ?p2 = "computeStringProperties U digest v2"
    let ?db1 = "if postCheck ?p1 v1 db then db else fst (postWrite stringify t1 ?p1 v1 db)"
    have d1: "distinct (map r_id ?db1) \<and> distinct (map r_value ?db1)"
      using d postWrite_distinct [of db stringify t1 ?p1 v1] by simp
    then have "distinct (map r_id (fst (postWrite stringify t2 ?p2 v2 ?db1))) \<and>
        distinct (map r_value (fst (postWrite stringify t2 ?p2 v2 ?db1)))"
      using postWrite_distinct [of ?db1 stringify t2 ?p2 v2] by blast
    then show ?thesis
      unfolding racingPosts_table Let_def using d1 by presburger
  qed
  show ?thesis using 1 2 3 by blast
qed

theorem racing_inserts_witness:
  "\<not> (\<exists>r \<in> set ([] :: table).
        r_id r = p_sha256_hash (computeStringProperties asciiUnicode id (js ''abc'')) \<or>
        r_value r = js ''abc'') \<and>
   distinct (map r_id ([] :: table)) \<and> distinct (map r_value ([] :: table)) \<and>
   racingPosts asciiUnicode id (\<lambda>m. js ''{}'') (js ''t1'', js ''abc'') (js ''t2'', js ''abc'') [] =
     ([] @ [newRow (\<lambda>m. js ''{}'') (js ''t1'') (js ''abc'')
         (computeStringProperties asciiUnicode id (js ''abc''))],
      Response 201 (CreatedBody
        \<lparr>rec_id = p_sha256_hash (computeStringProperties asciiUnicode id (js ''abc'')),
         rec_value = js ''abc'',
         rec_properties = computeStringProperties asciiUnicode id (js ''abc''),
         rec_created_at = js ''t1''\<rparr>),
      Uncaught UniqueConstraintFailed) \<and>
   distinct (map r_value (fst
     (racingPosts asciiUnicode id (\<lambda>m. js ''{}'') (js ''t1'', js ''abc'') (js ''t2'', js ''abc'') [])))"
proof -
  have e: "\<not> (\<exists>r \<in> set ([] :: table).
        r_id r = p_sha256_hash (computeStringProperties asciiUnicode id (js ''abc'')) \<or>
        r_value r = js ''abc'')" by simp
  have d: "distinct (map r_id ([] :: table)) \<and> distinct (map r_value ([] :: table))" by simp
  note t = racing_inserts
    [of "[]" asciiUnicode id "js ''abc''" "\<lambda>m. js ''{}''" "js ''t1''" "js ''t2''" "js ''abc''"]
  have 1: "racingPosts asciiUnicode id (\<lambda>m. js ''{}'') (js ''t1'', js ''abc'')
      (js ''t2'', js ''abc'') [] =
     ([] @ [newRow (\<lambda>m. js ''{}'') (js ''t1'') (js ''abc'')
         (computeStringProperties asciiUnicode id (js ''abc''))],
      Response 201 (CreatedBody
        \<lparr>rec_id = p_sha256_hash (computeStringProperties asciiUnicode id (js ''abc'')),
         rec_value = js ''abc'',
         rec_properties = computeStringProperties asciiUnicode id (js ''abc''),
         rec_created_at = js ''t1''\<rparr>),
      Uncaught UniqueConstraintFailed)"
    using t e by blast
  have 2: "distinct (map r_value (fst
     (racingPosts asciiUnicode id (\<lambda>m. js ''{}'') (js ''t1'', js ''abc'') (js ''t2'', js ''abc'') [])))"
    using t d by blast
  show ?thesis using e d 1 2 by (intro conjI) blast+
qed

subsection \<open>Filtering in the database and in memory\<close>

lemma ball_append: "(\<forall>x \<in> set (xs @ ys). P x) = ((\<forall>x \<in> set xs. P x) \<and> (\<forall>x \<in> set ys. P x))"
  by auto

lemma cond_is_palindrome:
  "(\<forall>cp \<in> set (case b of None \<Rightarrow> []
      | Some b \<Rightarrow> [(''is_palindrome = ?'', NumberParam (if b then 1 else 0))]).
      evalCondition cp row) =
   (case b of None \<Rightarrow> True | Some b \<Rightarrow> enat (r_is_palindrome row) = (if b then 1 else 0))"
proof (cases b)
  case None
  then show ?thesis by simp
next
  case (Some x)
  then show ?thesis by (cases x) (simp_all add: evalCondition_def)
qed

lemma cond_min_length:
  "(\<forall>cp \<in> set (case m of None \<Rightarrow> [] | Some n \<Rightarrow> [(''length >= ?'', NumberParam n)]).
      evalCondition cp row) =
   (case m of None \<Rightarrow> True | Some n \<Rightarrow> enat (r_length row) \<ge> n)"
  by (simp add: evalCondition_def split: option.splits)

lemma cond_max_length:
  "(\<forall>cp \<in> set (case m of None \<Rightarrow> [] | Some n \<Rightarrow> [(''length <= ?'', NumberParam n)]).
      evalCondition cp row) =
   (case m of None \<Rightarrow> True | Some n \<Rightarrow> enat (r_length row) \<le> n)"
  by (simp add: evalCondition_def split: option.splits)

lemma cond_word_count:
  "(\<forall>cp \<in> set (case m of None \<Rightarrow> [] | Some n \<Rightarrow> [(''word_count = ?'', NumberParam n)]).
      evalCondition cp row) =
   (case m of None \<Rightarrow> True | Some n \<Rightarrow> enat (r_word_count row) = n)"
  by (simp add: evalCondition_def split: option.splits)

lemma cond_like:
  "(\<forall>cp \<in> set (case m of None \<Rightarrow> [] | Some ch \<Rightarrow> [(''LOWER(value) LIKE ?'', TextParam (g ch))]).
      evalCondition cp row) =
   (case m of None \<Rightarrow> True | Some ch \<Rightarrow> like (g ch) (sqlLower (r_value row)))"
  by (simp add: evalCondition_def split: option.splits)

lemma where_clause:
  "(\<forall>cp \<in> set (buildConditions U f). evalCondition cp row) =
     ((case is_palindrome f of None \<Rightarrow> True
       | Some b \<Rightarrow> enat (r_is_palindrome row) = (if b then 1 else 0)) \<and>
      (case min_length f of None \<Rightarrow> True | Some n \<Rightarrow> enat (r_length row) \<ge> n) \<and>
      (case max_length f of None \<Rightarrow> True | Some n \<Rightarrow> enat (r_length row) \<le> n) \<and>
      (case word_count f of None \<Rightarrow> True | Some n \<Rightarrow> enat (r_word_count row) = n) \<and>
      (case contains_character f of None \<Rightarrow> True
       | Some ch \<Rightarrow> like (js ''%'' @ toLowerCase U ch @ js ''%'') (sqlLower (r_value row))))"
  unfolding buildConditions_def ball_append cond_is_palindrome cond_min_length cond_max_length
    cond_word_count cond_like
  by (rule refl)

lemma keepRecord_row:
  "keepRecord U f (mapRowToRecord row) =
     ((case is_palindrome f of None \<Rightarrow> True | Some b \<Rightarrow> (r_is_palindrome row \<noteq> 0) = b) \<and>
      (case min_length f of None \<Rightarrow> True | Some n \<Rightarrow> enat (r_length row) \<ge> n) \<and>
      (case max_length f of None \<Rightarrow> True | Some n \<Rightarrow> enat (r_length row) \<le> n) \<and>
      (case word_count f of None \<Rightarrow> True | Some n \<Rightarrow> enat (r_word_count row) = n) \<and>
      (case contains_character f of None \<Rightarrow> True
       | Some ch \<Rightarrow> includes_js (toLowerCase U (r_value row)) (toLowerCase U ch)))"
  by (auto simp: keepRecord_def mapRowToRecord_def Let_def split: option.splits)

lemma agree_without_character:
  assumes "contains_character f = None" "r_is_palindrome row \<le> 1"
  shows "(\<forall>cp \<in> set (buildConditions U f). evalCondition cp row) =
         keepRecord U f (mapRowToRecord row)"
proof -
  have b: "\<And>b. (enat (r_is_palindrome row) = (if b then 1 else 0)) = ((r_is_palindrome row \<noteq> 0) = b)"
    subgoal for b using assms(2) by (cases b) (auto simp: one_enat_def zero_enat_def)
    done
  have pal: "(case is_palindrome f of None \<Rightarrow> True
       | Some b \<Rightarrow> enat (r_is_palindrome row) = (if b then 1 else 0)) =
      (case is_palindrome f of None \<Rightarrow> True | Some b \<Rightarrow> (r_is_palindrome row \<noteq> 0) = b)"
    by (cases "is_palindrome f") (simp_all only: option.case b)
  show ?thesis
    unfolding where_clause keepRecord_row pal assms(1) by simp
qed


subsection \<open>The pattern of one ASCII character\<close>

lemma ascii_not_surrogate: "c < 0x80 \<Longrightarrow> \<not> isHighSurrogate c"
  by (simp add: isHighSurrogate_def word_le_nat_alt word_less_nat_alt)

lemma Array_from_ascii: "isAscii s \<Longrightarrow> Array_from s = map (\<lambda>c. [c]) s"
  by (induction s rule: Array_from.induct) (auto simp: isAscii_def ascii_not_surrogate)

lemma like_percent: "likeCodePoints [[0x25]] cps"
  by (induction cps) auto

lemma like_contains:
  assumes "p \<noteq> [0x25]" "p \<noteq> [0x5F]"
  shows "likeCodePoints [[0x25], p, [0x25]] cps =
         (\<exists>e \<in> set cps. map asciiLower p = map asciiLower e)"
  using assms by (induction cps) (auto simp: like_percent)

lemma includes_single: "includes_js s [x] = (x \<in> set s)"
  by (induction s) (auto split: list.splits)

lemma asciiLower_idem: "asciiLower (asciiLower c) = asciiLower c"
proof (cases "isUpperAZ c")
  case True
  then have "\<not> isUpperAZ (c + 0x20)"
    using asciiUpper_upper [OF True] class_bounds(4) [of "c + 0x20"] by blast
  then show ?thesis using True by (simp add: asciiLower_def)
next
  case False
  then show ?thesis by (simp add: asciiLower_def)
qed

lemma asciiLower_ascii: "c < 0x80 \<Longrightarrow> asciiLower c < 0x80"
  using isAscii_map_asciiLower [of "[c]"] by (simp add: isAscii_def)

lemma asciiLower_not_wildcard:
  assumes "c \<noteq> 0x25" "c \<noteq> 0x5F"
  shows "asciiLower c \<noteq> 0x25 \<and> asciiLower c \<noteq> 0x5F"
proof (cases "isUpperAZ c")
  case True
  then have "isLowerAZ (asciiLower c)"
    using asciiUpper_upper [OF True] by (simp add: asciiLower_def)
  then show ?thesis by (auto simp: isLowerAZ_def)
next
  case False
  then show ?thesis using assms by (simp add: asciiLower_def)
qed

lemma like_ascii_character:
  assumes U: "asciiFaithful U" and v: "isAscii v" and c: "c < 0x80" "c \<noteq> 0x25" "c \<noteq> 0x5F"
  shows "like (js ''%'' @ toLowerCase U [c] @ js ''%'') (sqlLower v) =
         includes_js (toLowerCase U v) (toLowerCase U [c])"
proof -
  have lc: "toLowerCase U [c] = [asciiLower c]"
    using U c(1) by (simp add: asciiFaithful_def isAscii_def)
  have lv: "toLowerCase U v = map asciiLower v"
    using U v by (simp add: asciiFaithful_def)
  have pa: "isAscii (js ''%'' @ [asciiLower c] @ js ''%'')"
    using asciiLower_ascii [OF c(1)] by (simp add: isAscii_def js_def)
  have pat: "Array_from (js ''%'' @ [asciiLower c] @ js ''%'') = [[0x25], [asciiLower c], [0x25]]"
    unfolding Array_from_ascii [OF pa] by (simp add: js_def)
  have tex: "Array_from (sqlLower v) = map (\<lambda>c. [c]) (map asciiLower v)"
    unfolding sqlLower_def by (rule Array_from_ascii [OF isAscii_map_asciiLower [OF v]])
  have nw: "[asciiLower c] \<noteq> [0x25]" "[asciiLower c] \<noteq> [0x5F]"
    using asciiLower_not_wildcard [OF c(2,3)] by simp_all
  have "like (js ''%'' @ toLowerCase U [c] @ js ''%'') (sqlLower v) =
      (\<exists>x \<in> set v. asciiLower c = asciiLower x)"
    unfolding like_def lc pat tex like_contains [OF nw]
    by (auto simp: asciiLower_idem)
  also have "\<dots> = includes_js (toLowerCase U v) (toLowerCase U [c])"
    unfolding lc lv includes_single by auto
  finally show ?thesis .
qed

lemma agree_ascii_character:
  assumes "asciiFaithful U" "isAscii (r_value row)" "c < 0x80" "c \<noteq> 0x25" "c \<noteq> 0x5F"
    and "contains_character f = Some [c]" "r_is_palindrome row \<le> 1"
  shows "(\<forall>cp \<in> set (buildConditions U f). evalCondition cp row) =
         keepRecord U f (mapRowToRecord row)"
proof -
  have b: "\<And>b. (enat (r_is_palindrome row) = (if b then 1 else 0)) = ((r_is_palindrome row \<noteq> 0) = b)"
    subgoal for b using assms(7) by (cases b) (auto simp: one_enat_def zero_enat_def)
    done
  have pal: "(case is_palindrome f of None \<Rightarrow> True
       | Some b \<Rightarrow> enat (r_is_palindrome row) = (if b then 1 else 0)) =
      (case is_palindrome f of None \<Rightarrow> True | Some b \<Rightarrow> (r_is_palindrome row \<noteq> 0) = b)"
    by (cases "is_palindrome f") (simp_all only: option.case b)
  show ?thesis
    unfolding where_clause keepRecord_row pal assms(6)
    using like_ascii_character [OF assms(1-5)] by simp
qed


text \<open>
  C1. With the filter \<open>contains_character = _\<close> and the stored value \<open>abc\<close>, the
  condition \<open>LOWER(value) LIKE '%_%'\<close> selects the row, and \<open>applyFilters\<close> on the same
  row rejects it: the underscore is a wildcard of \<open>LIKE\<close>, and the value has no
  underscore. The two passes do agree on a row that the application wrote when the filter
  has no character, and when the character is ASCII and not a wildcard and the value is
  ASCII.
\<close>

theorem sql_filter_differs_from_applyFilters:
  "fetchRecords asciiUnicode
     [\<lparr>r_id = js ''id'', r_value = js ''abc'', r_length = 3, r_is_palindrome = 0,
      r_unique_characters = 3, r_word_count = 1, r_character_frequency_map = js ''{}'',
      r_created_at = js ''2025''\<rparr>] (noFilters\<lparr>contains_character := Some (js ''_'')\<rparr>) =
     [mapRowToRecord
     \<lparr>r_id = js ''id'', r_value = js ''abc'', r_length = 3, r_is_palindrome = 0,
      r_unique_characters = 3, r_word_count = 1, r_character_frequency_map = js ''{}'',
      r_created_at = js ''2025''\<rparr>] \<and>
   applyFilters asciiUnicode (map mapRowToRecord
     [\<lparr>r_id = js ''id'', r_value = js ''abc'', r_length = 3, r_is_palindrome = 0,
      r_unique_characters = 3, r_word_count = 1, r_character_frequency_map = js ''{}'',
      r_created_at = js ''2025''\<rparr>])
     (noFilters\<lparr>contains_character := Some (js ''_'')\<rparr>) = [] \<and>
   (contains_character f = None \<and> r_is_palindrome row \<le> 1 \<longrightarrow>
      (\<forall>cp \<in> set (buildConditions U f). evalCondition cp row) =
        keepRecord U f (mapRowToRecord row)) \<and>
   (asciiFaithful U \<and> isAscii (r_value row) \<and> c < 0x80 \<and> c \<noteq> 0x25 \<and> c \<noteq> 0x5F \<and>
    contains_character f = Some [c] \<and> r_is_palindrome row \<le> 1 \<longrightarrow>
      (\<forall>cp \<in> set (buildConditions U f). evalCondition cp row) =
        keepRecord U f (mapRowToRecord row))"
proof -
  have l: "like (js ''%'' @ toLowerCase asciiUnicode (js ''_'') @ js ''%'') (sqlLower (js ''abc''))"
    by (simp add: like_def sqlLower_def eval_defs isHighSurrogate_def isLowSurrogate_def)
  have i: "\<not> includes_js (toLowerCase asciiUnicode (js ''abc'')) (toLowerCase asciiUnicode (js ''_''))"
    by (simp add: eval_defs)
  have b: "buildConditions asciiUnicode (noFilters\<lparr>contains_character := Some (js ''_'')\<rparr>) =
      [(''LOWER(value) LIKE ?'', TextParam (js ''%'' @ toLowerCase asciiUnicode (js ''_'') @ js ''%''))]"
    by (simp add: buildConditions_def noFilters_def)
  have 1: "fetchRecords asciiUnicode

     [\<lparr>r_id = js ''id'', r_value = js ''abc'', r_length = 3, r_is_palindrome = 0,
      r_unique_characters = 3, r_word_count = 1, r_character_frequency_map = js ''{}'',
      r_created_at = js ''2025''\<rparr>]
     (noFilters\<lparr>contains_character := Some (js ''_'')\<rparr>) =
   [mapRowToRecord

     \<lparr>r_id = js ''id'', r_value = js ''abc'', r_length = 3, r_is_palindrome = 0,
      r_unique_characters = 3, r_word_count = 1, r_character_frequency_map = js ''{}'',
      r_created_at = js ''2025''\<rparr>]"
    unfolding fetchRecords_def b Let_def using l
    by (simp add: evalCondition_def orderByCreatedAtDesc_def)
  have 2: "applyFilters asciiUnicode
     (map mapRowToRecord

     [\<lparr>r_id = js ''id'', r_value = js ''abc'', r_length = 3, r_is_palindrome = 0,
      r_unique_characters = 3, r_word_count = 1, r_character_frequency_map = js ''{}'',
      r_created_at = js ''2025''\<rparr>])
     (noFilters\<lparr>contains_character := Some (js ''_'')\<rparr>) = []"
    using i by (simp add: applyFilters_def keepRecord_def noFilters_def mapRowToRecord_def)
  have 3: "contains_character f = None \<and> r_is_palindrome row \<le> 1 \<longrightarrow>
      (\<forall>cp \<in> set (buildConditions U f). evalCondition cp row) =
        keepRecord U f (mapRowToRecord row)"
    using agree_without_character by blast
  have 4: "asciiFaithful U \<and> isAscii (r_value row) \<and> c < 0x80 \<and> c \<noteq> 0x25 \<and> c \<noteq> 0x5F \<and>
    contains_character f = Some [c] \<and> r_is_palindrome row \<le> 1 \<longrightarrow>
      (\<forall>cp \<in> set (buildConditions U f). evalCondition cp row) =
        keepRecord U f (mapRowToRecord row)"
    using agree_ascii_character by blast
  show ?thesis using 1 2 3 4 by (intro conjI)
qed

theorem sql_filter_differs_from_applyFilters_witness:
  "length (fetchRecords asciiUnicode
     [\<lparr>r_id = js ''id'', r_value = js ''abc'', r_length = 3, r_is_palindrome = 0,
      r_unique_characters = 3, r_word_count = 1, r_character_frequency_map = js ''{}'',
      r_created_at = js ''2025''\<rparr>]
     (noFilters\<lparr>contains_character := Some (js ''_'')\<rparr>)) = 1 \<and>
   length (applyFilters asciiUnicode (map mapRowToRecord
     [\<lparr>r_id = js ''id'', r_value = js ''abc'', r_length = 3, r_is_palindrome = 0,
      r_unique_characters = 3, r_word_count = 1, r_character_frequency_map = js ''{}'',
      r_created_at = js ''2025''\<rparr>])
     (noFilters\<lparr>contains_character := Some (js ''_'')\<rparr>)) = 0 \<and>
   asciiFaithful asciiUnicode \<and> isAscii (r_value
     \<lparr>r_id = js ''id'', r_value = js ''abc'', r_length = 3, r_is_palindrome = 0,
      r_unique_characters = 3, r_word_count = 1, r_character_frequency_map = js ''{}'',
      r_created_at = js ''2025''\<rparr>) \<and>
   (0x62 :: 16 word) < 0x80 \<and> (0x62 :: 16 word) \<noteq> 0x25 \<and> (0x62 :: 16 word) \<noteq> 0x5F \<and>
   contains_character (noFilters\<lparr>contains_character := Some [0x62]\<rparr>) = Some [0x62] \<and>
   r_is_palindrome
     \<lparr>r_id = js ''id'', r_value = js ''abc'', r_length = 3, r_is_palindrome = 0,
      r_unique_characters = 3, r_word_count = 1, r_character_frequency_map = js ''{}'',
      r_created_at = js ''2025''\<rparr> \<le> 1 \<and>
   keepRecord asciiUnicode (noFilters\<lparr>contains_character := Some [0x62]\<rparr>)
     (mapRowToRecord
     \<lparr>r_id = js ''id'', r_value = js ''abc'', r_length = 3, r_is_palindrome = 0,
      r_unique_characters = 3, r_word_count = 1, r_character_frequency_map = js ''{}'',
      r_created_at = js ''2025''\<rparr>) \<and>
   list_all (\<lambda>cp. evalCondition cp
     \<lparr>r_id = js ''id'', r_value = js ''abc'', r_length = 3, r_is_palindrome = 0,
      r_unique_characters = 3, r_word_count = 1, r_character_frequency_map = js ''{}'',
      r_created_at = js ''2025''\<rparr>)
     (buildConditions asciiUnicode (noFilters\<lparr>contains_character := Some [0x62]\<rparr>))"
proof -
  note t = sql_filter_differs_from_applyFilters
    [where f = "noFilters\<lparr>contains_character := Some [0x62]\<rparr>" and U = asciiUnicode
       and c = "0x62" and row =
     "\<lparr>r_id = js ''id'', r_value = js ''abc'', r_length = 3, r_is_palindrome = 0,
       r_unique_characters = 3, r_word_count = 1, r_character_frequency_map = js ''{}'',
       r_created_at = js ''2025''\<rparr>"]
  have 1: "length (fetchRecords asciiUnicode
     [\<lparr>r_id = js ''id'', r_value = js ''abc'', r_length = 3, r_is_palindrome = 0,
      r_unique_characters = 3, r_word_count = 1, r_character_frequency_map = js ''{}'',
      r_created_at = js ''2025''\<rparr>]
     (noFilters\<lparr>contains_character := Some (js ''_'')\<rparr>)) = 1"
    unfolding t [THEN conjunct1] by simp
  have 2: "length (applyFilters asciiUnicode (map mapRowToRecord
     [\<lparr>r_id = js ''id'', r_value = js ''abc'', r_length = 3, r_is_palindrome = 0,
      r_unique_characters = 3, r_word_count = 1, r_character_frequency_map = js ''{}'',
      r_created_at = js ''2025''\<rparr>])
     (noFilters\<lparr>contains_character := Some (js ''_'')\<rparr>)) = 0"
    unfolding t [THEN conjunct2, THEN conjunct1] by simp
  have a: "isAscii (r_value
     \<lparr>r_id = js ''id'', r_value = js ''abc'', r_length = 3, r_is_palindrome = 0,
      r_unique_characters = 3, r_word_count = 1, r_character_frequency_map = js ''{}'',
      r_created_at = js ''2025''\<rparr>)" by (simp add: isAscii_def js_def)
  have h: "(0x62 :: 16 word) < 0x80" "(0x62 :: 16 word) \<noteq> 0x25" "(0x62 :: 16 word) \<noteq> 0x5F"
    "contains_character (noFilters\<lparr>contains_character := Some [0x62]\<rparr>) = Some [0x62]"
    "r_is_palindrome
     \<lparr>r_id = js ''id'', r_value = js ''abc'', r_length = 3, r_is_palindrome = 0,
      r_unique_characters = 3, r_word_count = 1, r_character_frequency_map = js ''{}'',
      r_created_at = js ''2025''\<rparr> \<le> 1"
    by simp_all
  have k: "keepRecord asciiUnicode (noFilters\<lparr>contains_character := Some [0x62]\<rparr>)
     (mapRowToRecord
     \<lparr>r_id = js ''id'', r_value = js ''abc'', r_length = 3, r_is_palindrome = 0,
      r_unique_characters = 3, r_word_count = 1, r_character_frequency_map = js ''{}'',
      r_created_at = js ''2025''\<rparr>)"
    by (simp add: keepRecord_def mapRowToRecord_def noFilters_def eval_defs)
  have "(\<forall>cp \<in> set (buildConditions asciiUnicode (noFilters\<lparr>contains_character := Some [0x62]\<rparr>)).
      evalCondition cp
     \<lparr>r_id = js ''id'', r_value = js ''abc'', r_length = 3, r_is_palindrome = 0,
      r_unique_characters = 3, r_word_count = 1, r_character_frequency_map = js ''{}'',
      r_created_at = js ''2025''\<rparr>) =
     keepRecord asciiUnicode (noFilters\<lparr>contains_character := Some [0x62]\<rparr>) (mapRowToRecord
     \<lparr>r_id = js ''id'', r_value = js ''abc'', r_length = 3, r_is_palindrome = 0,
      r_unique_characters = 3, r_word_count = 1, r_character_frequency_map = js ''{}'',
      r_created_at = js ''2025''\<rparr>)"
    using t asciiFaithful_asciiUnicode a h by blast
  then have e: "list_all (\<lambda>cp. evalCondition cp
     \<lparr>r_id = js ''id'', r_value = js ''abc'', r_length = 3, r_is_palindrome = 0,
      r_unique_characters = 3, r_word_count = 1, r_character_frequency_map = js ''{}'',
      r_created_at = js ''2025''\<rparr>)
     (buildConditions asciiUnicode (noFilters\<lparr>contains_character := Some [0x62]\<rparr>))"
    using k unfolding list_all_iff by blast
  show ?thesis using 1 2 asciiFaithful_asciiUnicode a h k e by (intro conjI)
qed

end
